theory Spec2Isabelle
  imports Main "HOL-Library.Char_ord" "HOL-Library.List_Lexorder" "HOL-Library.Multiset"
begin

section \<open>Philly Calendar client: data model\<close>

text \<open>
  The client script keeps its state in module-level variables (\<open>allEvents\<close>,
  \<open>filteredEvents\<close>, the four \<open>current...\<close> filter values, \<open>bookmarkedIds\<close>,
  \<open>currentUser\<close>, \<open>savedEventIds\<close>) and in the browser's \<open>localStorage\<close>. Every
  handler is modelled as a function from the state before to the state after.

  A JavaScript string is a list of code units; \<open>char\<close> holds the code units below 256.
  A field of an event arrives as JSON and may be \<open>null\<close>, hence \<open>string option\<close>.
\<close>

record event =
  ev_id :: int
  title :: "string option"
  description :: "string option"
  start_date :: "string option"
  location :: "string option"
  category :: "string option"
  price :: "string option"
  source :: "string option"

record user =
  user_id :: int
  email :: string
  display_name :: "string option"

text \<open>The calls of \<open>showToast\<close>, in order, stand for what the user is told.\<close>

datatype toast =
    BookmarkRemoved | EventBookmarked | RemovedFromSaves | EventSaved
  | SavesUpdateFailed | Welcome string

fun toast_is_error :: "toast \<Rightarrow> bool" where
  "toast_is_error SavesUpdateFailed = True"
| "toast_is_error _ = False"

text \<open>
  A JavaScript \<open>Set\<close> of event ids iterates in insertion order and holds no id twice:
  a list, with \<open>add\<close> appending an absent id and \<open>delete\<close> removing it.
  \<open>localStorage\<close> holds under \<open>philly_bookmarks\<close> the JSON text of an array of ids,
  read back by \<open>JSON.parse\<close>; the model keeps the array, \<open>None\<close> when the key is absent.
\<close>

record app_state =
  allEvents :: "event list"
  filteredEvents :: "event list"
  currentCategory :: string
  currentMonth :: string
  currentSource :: string
  currentNeighborhood :: string
  bookmarkedIds :: "int list"
  currentUser :: "user option"
  savedEventIds :: "int list"
  localStorage :: "int list option"
  toasts :: "toast list"

definition set_add :: "int list \<Rightarrow> int \<Rightarrow> int list" where
  "set_add xs x = (if x \<in> set xs then xs else xs @ [x])"

definition set_delete :: "int list \<Rightarrow> int \<Rightarrow> int list" where
  "set_delete xs x = removeAll x xs"

definition new_Set :: "int list \<Rightarrow> int list" where
  "new_Set xs = foldl set_add [] xs"

definition showToast :: "toast \<Rightarrow> app_state \<Rightarrow> app_state" where
  "showToast t st = st\<lparr>toasts := toasts st @ [t]\<rparr>"

text \<open>The values the script gives its variables when it is loaded.\<close>

definition initial_state :: app_state where
  "initial_state =
     \<lparr>allEvents = [], filteredEvents = [], currentCategory = ''all'', currentMonth = ''all'',
      currentSource = ''all'', currentNeighborhood = ''all'', bookmarkedIds = [],
      currentUser = None, savedEventIds = [], localStorage = None, toasts = []\<rparr>"

section \<open>Anonymous bookmarks\<close>

definition saveBookmarks :: "app_state \<Rightarrow> app_state" where
  "saveBookmarks st = st\<lparr>localStorage := Some (bookmarkedIds st)\<rparr>"

text \<open>
  \<open>toggleBookmark\<close> ends by re-rendering the open detail modal, which changes no
  variable of the state.
\<close>

definition toggleBookmark :: "int \<Rightarrow> app_state \<Rightarrow> app_state" where
  "toggleBookmark eventId st =
     saveBookmarks
       (if eventId \<in> set (bookmarkedIds st)
        then showToast BookmarkRemoved
               (st\<lparr>bookmarkedIds := set_delete (bookmarkedIds st) eventId\<rparr>)
        else showToast EventBookmarked
               (st\<lparr>bookmarkedIds := set_add (bookmarkedIds st) eventId\<rparr>))"

definition stored_ids :: "int list option \<Rightarrow> int set" where
  "stored_ids v = (case v of None \<Rightarrow> {} | Some ids \<Rightarrow> set ids)"

section \<open>Server-side saves\<close>

text \<open>
  The requests the client sends to \<open>/profile/saves\<close>, and what an awaited \<open>fetch\<close>
  followed by \<open>res.json()\<close> can give: the promise rejects (\<open>Rejected\<close>), the body is
  not JSON (\<open>NotJson\<close>), or a body with its \<open>success\<close> flag and \<open>event_ids\<close>.
  The network is a parameter: a function from the request to its outcome.
\<close>

datatype http_request = SavePost int | SaveDelete int | SavesGet

record saves_body =
  success :: bool
  event_ids :: "int list"

datatype fetch_outcome = Rejected | NotJson | Body saves_body

type_synonym network = "http_request \<Rightarrow> fetch_outcome"

fun confirmed_by_server :: "fetch_outcome \<Rightarrow> bool" where
  "confirmed_by_server (Body b) = success b"
| "confirmed_by_server _ = False"

definition loadUserSaves :: "network \<Rightarrow> app_state \<Rightarrow> app_state \<times> http_request list" where
  "loadUserSaves net st =
     (case currentUser st of
        None \<Rightarrow> (st, [])
      | Some u \<Rightarrow>
          (case net SavesGet of
             Body b \<Rightarrow>
               (if success b then st\<lparr>savedEventIds := new_Set (event_ids b)\<rparr> else st,
                [SavesGet])
           | _ \<Rightarrow> (st, [SavesGet])))"

definition toggleSave :: "int \<Rightarrow> network \<Rightarrow> app_state \<Rightarrow> app_state \<times> http_request list" where
  "toggleSave eventId net st =
     (case currentUser st of
        None \<Rightarrow> (toggleBookmark eventId st, [])
      | Some u \<Rightarrow>
          (if eventId \<in> set (savedEventIds st)
           then (case net (SaveDelete eventId) of
                   Body b \<Rightarrow>
                     (if success b
                      then showToast RemovedFromSaves
                             (st\<lparr>savedEventIds := set_delete (savedEventIds st) eventId\<rparr>)
                      else st,
                      [SaveDelete eventId])
                 | _ \<Rightarrow> (showToast SavesUpdateFailed st, [SaveDelete eventId]))
           else (case net (SavePost eventId) of
                   Body b \<Rightarrow>
                     (if success b
                      then showToast EventSaved
                             (st\<lparr>savedEventIds := set_add (savedEventIds st) eventId\<rparr>)
                      else st,
                      [SavePost eventId])
                 | _ \<Rightarrow> (showToast SavesUpdateFailed st, [SavePost eventId]))))"

section \<open>Migration of the bookmarks at login\<close>

text \<open>
  The loop of \<open>onLoginSuccess\<close> awaits one \<open>POST\<close> per bookmarked id inside
  \<open>try { ... } catch (_) {}\<close>: a rejected request is caught and the loop goes on, and
  the response of a request that resolves is never read.
\<close>

fun migrate :: "network \<Rightarrow> int list \<Rightarrow> http_request list" where
  "migrate net [] = []"
| "migrate net (eventId # ids) =
     (case net (SavePost eventId) of
        Rejected \<Rightarrow> SavePost eventId # migrate net ids
      | _ \<Rightarrow> SavePost eventId # migrate net ids)"

definition first_segment :: "char \<Rightarrow> string \<Rightarrow> string" where
  "first_segment sep s = takeWhile (\<lambda>c. c \<noteq> sep) s"

definition firstName :: "user \<Rightarrow> string" where
  "firstName u =
     (case display_name u of
        Some n \<Rightarrow> (if n \<noteq> [] then first_segment CHR '' '' n
                   else first_segment CHR ''@'' (email u))
      | None \<Rightarrow> first_segment CHR ''@'' (email u))"

definition onLoginSuccess :: "user \<Rightarrow> network \<Rightarrow> app_state \<Rightarrow> app_state \<times> http_request list" where
  "onLoginSuccess u net st =
     (let st1 = st\<lparr>currentUser := Some u\<rparr>;
          (st2, posts) =
            (if bookmarkedIds st1 \<noteq> []
             then (saveBookmarks (st1\<lparr>bookmarkedIds := []\<rparr>), migrate net (bookmarkedIds st1))
             else (st1, []));
          (st3, gets) = loadUserSaves net st2
      in (showToast (Welcome (firstName u)) st3, posts @ gets))"

section \<open>JavaScript strings\<close>

definition char_code :: "char \<Rightarrow> nat" where
  "char_code c = of_char c"

text \<open>The regular expression classes \<open>\d\<close>, \<open>[A-Za-z]\<close> and \<open>\s\<close> (the white space
  that \<open>trim\<close> strips as well), on code units below 256.\<close>

definition is_digit :: "char \<Rightarrow> bool" where
  "is_digit c = (48 \<le> char_code c \<and> char_code c \<le> 57)"

definition is_alpha :: "char \<Rightarrow> bool" where
  "is_alpha c = ((65 \<le> char_code c \<and> char_code c \<le> 90) \<or>
                 (97 \<le> char_code c \<and> char_code c \<le> 122))"

definition is_space :: "char \<Rightarrow> bool" where
  "is_space c = (char_code c \<in> {9, 10, 11, 12, 13, 32, 160})"

definition js_trim :: "string \<Rightarrow> string" where
  "js_trim s = rev (dropWhile is_space (rev (dropWhile is_space s)))"

definition lower_char :: "char \<Rightarrow> char" where
  "lower_char c =
     (if (65 \<le> char_code c \<and> char_code c \<le> 90) \<or>
         (192 \<le> char_code c \<and> char_code c \<le> 222 \<and> char_code c \<noteq> 215)
      then char_of (char_code c + 32) else c)"

definition toLowerCase :: "string \<Rightarrow> string" where
  "toLowerCase s = map lower_char s"

fun starts_with :: "string \<Rightarrow> string \<Rightarrow> bool" where
  "starts_with s [] = True"
| "starts_with [] (q # qs) = False"
| "starts_with (c # cs) (q # qs) = (c = q \<and> starts_with cs qs)"

text \<open>\<open>s.includes(q)\<close>: \<open>q\<close> occurs in \<open>s\<close> as a contiguous substring.\<close>

fun js_includes :: "string \<Rightarrow> string \<Rightarrow> bool" where
  "js_includes [] q = (q = [])"
| "js_includes (c # cs) q = (starts_with (c # cs) q \<or> js_includes cs q)"

text \<open>\<open>s.split(sep)\<close> and \<open>s.replace(c, r)\<close> (first occurrence only) for a
  one-character \<open>sep\<close> and \<open>c\<close>.\<close>

fun split_on :: "char \<Rightarrow> string \<Rightarrow> string list" where
  "split_on sep [] = [[]]"
| "split_on sep (c # cs) =
     (if c = sep then [] # split_on sep cs
      else (case split_on sep cs of
              [] \<Rightarrow> [[c]]
            | p # ps \<Rightarrow> (c # p) # ps))"

fun replace_first :: "char \<Rightarrow> string \<Rightarrow> string \<Rightarrow> string" where
  "replace_first c r [] = []"
| "replace_first c r (x # xs) = (if x = c then r @ xs else x # replace_first c r xs)"

definition padStart2 :: "string \<Rightarrow> string" where
  "padStart2 s = replicate (2 - length s) CHR ''0'' @ s"

section \<open>JavaScript numbers\<close>

text \<open>
  Two kinds of numbers occur. The fields of a \<open>Date\<close>, the results of \<open>parseInt\<close>
  and the entries of \<open>months\<close> are integers or \<open>NaN\<close>: type \<open>jsnum\<close>. The value
  of \<open>Number(s)\<close> can be a fraction or infinite: type \<open>numeric\<close>, further down.
\<close>

datatype jsnum = NaN | Num int

fun num_plus :: "jsnum \<Rightarrow> int \<Rightarrow> jsnum" where
  "num_plus NaN k = NaN"
| "num_plus (Num n) k = Num (n + k)"

text \<open>\<open>x !== 0\<close>: \<open>NaN\<close> is not equal to 0.\<close>

fun not_zero :: "jsnum \<Rightarrow> bool" where
  "not_zero NaN = True"
| "not_zero (Num n) = (n \<noteq> 0)"

definition digit_char :: "nat \<Rightarrow> char" where
  "digit_char k = char_of (48 + k)"

definition digits_value :: "string \<Rightarrow> nat" where
  "digits_value ds = foldl (\<lambda>a c. 10 * a + (char_code c - 48)) 0 ds"

fun show_nat :: "nat \<Rightarrow> string" where
  "show_nat n = (if n < 10 then [digit_char n] else show_nat (n div 10) @ [digit_char (n mod 10)])"

declare show_nat.simps [simp del]

fun js_String :: "jsnum \<Rightarrow> string" where
  "js_String NaN = ''NaN''"
| "js_String (Num n) = (if n < 0 then CHR ''-'' # show_nat (nat (- n)) else show_nat (nat n))"

text \<open>\<open>parseInt(s, 10)\<close>: leading white space, an optional sign, then the longest run
  of decimal digits; \<open>NaN\<close> when there is no digit.\<close>

definition unsigned_number :: "string \<Rightarrow> jsnum" where
  "unsigned_number ds =
     (if ds \<noteq> [] \<and> list_all is_digit ds then Num (int (digits_value ds)) else NaN)"

definition leading_digits :: "string \<Rightarrow> jsnum" where
  "leading_digits s = unsigned_number (takeWhile is_digit s)"

definition parseInt10 :: "string \<Rightarrow> jsnum" where
  "parseInt10 s =
     (case dropWhile is_space s of
        [] \<Rightarrow> NaN
      | c # cs \<Rightarrow>
          (if c = CHR ''-'' then (case leading_digits cs of NaN \<Rightarrow> NaN | Num n \<Rightarrow> Num (- n))
           else if c = CHR ''+'' then leading_digits cs
           else leading_digits (c # cs)))"

text \<open>
  \<open>Number(s)\<close> on a string reads the whole of it, white space trimmed, as a numeric
  literal: the empty string is 0; \<open>0x\<close>, \<open>0o\<close> and \<open>0b\<close> (either case, no sign)
  introduce hexadecimal, octal and binary digits; otherwise an optional sign and
  \<open>Infinity\<close> or decimal digits with an optional fraction and an optional exponent
  (\<open>12\<close>, \<open>12.\<close>, \<open>12.5\<close>, \<open>.5\<close>, \<open>1e3\<close>, \<open>1.5E-3\<close>); any other text is \<open>NaN\<close>.
  \<open>Finite m e\<close> is the number \<open>m\<close> times ten to the power \<open>e\<close>. The value is kept
  exact: the rounding of a literal to a 64-bit float is not part of the model.
  \<open>undefined\<close>, which the arithmetic operators and \<open>Date\<close> convert to \<open>NaN\<close>, is
  \<open>NotANumber\<close> as well.
\<close>

datatype numeric = NotANumber | PosInfinity | NegInfinity | Finite int int

definition hex_digit :: "char \<Rightarrow> nat option" where
  "hex_digit c =
     (if is_digit c then Some (char_code c - 48)
      else if 97 \<le> char_code c \<and> char_code c \<le> 102 then Some (char_code c - 87)
      else if 65 \<le> char_code c \<and> char_code c \<le> 70 then Some (char_code c - 55)
      else None)"

fun radix_number :: "nat \<Rightarrow> nat \<Rightarrow> string \<Rightarrow> nat option" where
  "radix_number r acc [] = Some acc"
| "radix_number r acc (c # cs) =
     (case hex_digit c of
        None \<Rightarrow> None
      | Some v \<Rightarrow> if v < r then radix_number r (r * acc + v) cs else None)"

fun non_decimal :: "string \<Rightarrow> nat option" where
  "non_decimal (c0 # c1 # d # ds) =
     (if c0 \<noteq> CHR ''0'' then None
      else if c1 = CHR ''x'' \<or> c1 = CHR ''X'' then radix_number 16 0 (d # ds)
      else if c1 = CHR ''o'' \<or> c1 = CHR ''O'' then radix_number 8 0 (d # ds)
      else if c1 = CHR ''b'' \<or> c1 = CHR ''B'' then radix_number 2 0 (d # ds)
      else None)"
| "non_decimal _ = None"

text \<open>The exponent part: nothing, or \<open>e\<close> or \<open>E\<close>, an optional sign and digits.\<close>

definition signed_integer :: "string \<Rightarrow> int option" where
  "signed_integer s =
     (case s of
        [] \<Rightarrow> None
      | c # cs \<Rightarrow>
          if c = CHR ''-'' then (case unsigned_number cs of NaN \<Rightarrow> None | Num n \<Rightarrow> Some (- n))
          else if c = CHR ''+'' then (case unsigned_number cs of NaN \<Rightarrow> None | Num n \<Rightarrow> Some n)
          else (case unsigned_number (c # cs) of NaN \<Rightarrow> None | Num n \<Rightarrow> Some n))"

definition exponent_part :: "string \<Rightarrow> int option" where
  "exponent_part s =
     (case s of
        [] \<Rightarrow> Some 0
      | c # cs \<Rightarrow> if c = CHR ''e'' \<or> c = CHR ''E'' then signed_integer cs else None)"

definition unsigned_decimal :: "string \<Rightarrow> numeric" where
  "unsigned_decimal s =
     (if s = ''Infinity'' then PosInfinity
      else
        (let ip = takeWhile is_digit s
         in case dropWhile is_digit s of
              [] \<Rightarrow> if ip = [] then NotANumber else Finite (int (digits_value ip)) 0
            | c # cs \<Rightarrow>
                if c = CHR ''.''
                then
                  (let fp = takeWhile is_digit cs
                   in if ip = [] \<and> fp = [] then NotANumber
                      else (case exponent_part (dropWhile is_digit cs) of
                              None \<Rightarrow> NotANumber
                            | Some ex \<Rightarrow>
                                Finite (int (digits_value (ip @ fp))) (ex - int (length fp))))
                else if ip = [] then NotANumber
                else (case exponent_part (c # cs) of
                        None \<Rightarrow> NotANumber
                      | Some ex \<Rightarrow> Finite (int (digits_value ip)) ex)))"

fun negated :: "numeric \<Rightarrow> numeric" where
  "negated NotANumber = NotANumber"
| "negated PosInfinity = NegInfinity"
| "negated NegInfinity = PosInfinity"
| "negated (Finite m e) = Finite (- m) e"

definition js_Number :: "string \<Rightarrow> numeric" where
  "js_Number s =
     (case js_trim s of
        [] \<Rightarrow> Finite 0 0
      | c # cs \<Rightarrow>
          (case non_decimal (c # cs) of
             Some v \<Rightarrow> Finite (int v) 0
           | None \<Rightarrow>
               if c = CHR ''-'' then negated (unsigned_decimal cs)
               else if c = CHR ''+'' then unsigned_decimal cs
               else unsigned_decimal (c # cs)))"

text \<open>\<open>x - 1\<close> and \<open>x || 0\<close> (\<open>NaN\<close> and 0 are falsy) on such a value.\<close>

fun minus_one :: "numeric \<Rightarrow> numeric" where
  "minus_one (Finite m e) =
     (if 0 \<le> e then Finite (m * 10 ^ nat e - 1) 0 else Finite (m - 10 ^ nat (- e)) e)"
| "minus_one x = x"

fun or_zero :: "numeric \<Rightarrow> numeric" where
  "or_zero NotANumber = Finite 0 0"
| "or_zero (Finite m e) = (if m = 0 then Finite 0 0 else Finite m e)"
| "or_zero x = x"

text \<open>
  An argument of \<open>new Date(...)\<close>: a value that is not finite stays \<open>NaN\<close>, a finite
  one is truncated towards zero.
\<close>

fun date_arg :: "numeric \<Rightarrow> jsnum" where
  "date_arg (Finite m e) =
     Num (if 0 \<le> e then m * 10 ^ nat e
          else if 0 \<le> m then m div 10 ^ nat (- e)
          else - ((- m) div 10 ^ nat (- e)))"
| "date_arg _ = NaN"

text \<open>An element of an array that may be missing: \<open>undefined\<close> there.\<close>

definition nth_num :: "numeric list \<Rightarrow> nat \<Rightarrow> numeric" where
  "nth_num xs i = (if i < length xs then xs ! i else NotANumber)"

section \<open>JavaScript dates\<close>

text \<open>
  A \<open>Date\<close> is invalid or holds a time value in milliseconds. The host's time zone is
  taken to have a fixed offset, so that the local fields of a date are the fields of
  its time value counted from local midnight of 1 January 1970; arithmetic is exact.
  \<open>days_from_civil\<close> and \<open>civil_from_days\<close> are the day number of a date of the
  proleptic Gregorian calendar and back (months 1 to 12).
\<close>

datatype jsdate = InvalidDate | TimeValue int

definition days_from_civil :: "int \<Rightarrow> int \<Rightarrow> int \<Rightarrow> int" where
  "days_from_civil y m d =
     (let y1 = (if m \<le> 2 then y - 1 else y);
          era = y1 div 400;
          yoe = y1 - era * 400;
          doy = (153 * (if m > 2 then m - 3 else m + 9) + 2) div 5 + d - 1;
          doe = yoe * 365 + yoe div 4 - yoe div 100 + doy
      in era * 146097 + doe - 719468)"

definition civil_from_days :: "int \<Rightarrow> int \<times> int \<times> int" where
  "civil_from_days z =
     (let z1 = z + 719468;
          era = z1 div 146097;
          doe = z1 - era * 146097;
          yoe = (doe - doe div 1460 + doe div 36524 - doe div 146096) div 365;
          doy = doe - (365 * yoe + yoe div 4 - yoe div 100);
          mp = (5 * doy + 2) div 153;
          d = doy - (153 * mp + 2) div 5 + 1;
          m = (if mp < 10 then mp + 3 else mp - 9);
          y = yoe + era * 400
      in (if m \<le> 2 then y + 1 else y, m, d))"

definition msPerDay :: int where "msPerDay = 86400000"

definition MakeDay :: "int \<Rightarrow> int \<Rightarrow> int \<Rightarrow> int" where
  "MakeDay year month date =
     days_from_civil (year + month div 12) (month mod 12 + 1) 1 + date - 1"

definition MakeTime :: "int \<Rightarrow> int \<Rightarrow> int \<Rightarrow> int \<Rightarrow> int" where
  "MakeTime hour minute sec ms = hour * 3600000 + minute * 60000 + sec * 1000 + ms"

definition MakeDate :: "int \<Rightarrow> int \<Rightarrow> int" where
  "MakeDate day time = day * msPerDay + time"

definition TimeClip :: "int \<Rightarrow> jsdate" where
  "TimeClip t = (if \<bar>t\<bar> > 8640000000000000 then InvalidDate else TimeValue t)"

text \<open>\<open>new Date(year, month, day, hour, minute, second)\<close> on arguments already
  converted by \<open>date_arg\<close>: a year from 0 to 99 means 1900 + year; fields out of range
  carry over; any \<open>NaN\<close> gives an invalid date.\<close>

fun new_Date :: "jsnum \<Rightarrow> jsnum \<Rightarrow> jsnum \<Rightarrow> jsnum \<Rightarrow> jsnum \<Rightarrow> jsnum \<Rightarrow> jsdate" where
  "new_Date (Num y) (Num m) (Num d) (Num h) (Num mi) (Num s) =
     TimeClip (MakeDate (MakeDay (if 0 \<le> y \<and> y \<le> 99 then 1900 + y else y) m d)
                        (MakeTime h mi s 0))"
| "new_Date _ _ _ _ _ _ = InvalidDate"

fun getFullYear :: "jsdate \<Rightarrow> jsnum" where
  "getFullYear InvalidDate = NaN"
| "getFullYear (TimeValue t) = Num (fst (civil_from_days (t div msPerDay)))"

fun getMonth :: "jsdate \<Rightarrow> jsnum" where
  "getMonth InvalidDate = NaN"
| "getMonth (TimeValue t) = Num (fst (snd (civil_from_days (t div msPerDay))) - 1)"

fun getDate :: "jsdate \<Rightarrow> jsnum" where
  "getDate InvalidDate = NaN"
| "getDate (TimeValue t) = Num (snd (snd (civil_from_days (t div msPerDay))))"

fun getHours :: "jsdate \<Rightarrow> jsnum" where
  "getHours InvalidDate = NaN"
| "getHours (TimeValue t) = Num (t div 3600000 mod 24)"

fun getMinutes :: "jsdate \<Rightarrow> jsnum" where
  "getMinutes InvalidDate = NaN"
| "getMinutes (TimeValue t) = Num (t div 60000 mod 60)"

fun getSeconds :: "jsdate \<Rightarrow> jsnum" where
  "getSeconds InvalidDate = NaN"
| "getSeconds (TimeValue t) = Num (t div 1000 mod 60)"

text \<open>
  What the script asks of its host: the current time \<open>new Date()\<close>, the host's own
  parser \<open>new Date(string)\<close>, whose result for a string that is not in the standard
  format is left to the implementation, and \<open>toLocaleTimeString\<close> with the options the
  script passes.
\<close>

record host =
  now :: jsdate
  date_of_string :: "string \<Rightarrow> jsdate"
  toLocaleTimeString :: "jsdate \<Rightarrow> string"

section \<open>Parsing the server's timestamps\<close>

text \<open>
  The pattern
  \<open>/^[A-Za-z]{3},\s+(\d{1,2})\s+([A-Za-z]{3})\s+(\d{4})\s+(\d{2}):(\d{2}):(\d{2})\s+GMT$/\<close>.
  Each repetition is followed by a character outside its class, so the match takes
  the longest run of the class and checks its length. The result holds the six groups.
\<close>

definition run_of :: "(char \<Rightarrow> bool) \<Rightarrow> nat \<Rightarrow> nat \<Rightarrow> string \<Rightarrow> (string \<times> string) option" where
  "run_of p lo hi s =
     (let r = takeWhile p s
      in if lo \<le> length r \<and> length r \<le> hi then Some (r, dropWhile p s) else None)"

definition spaces :: "string \<Rightarrow> string option" where
  "spaces s = (if takeWhile is_space s = [] then None else Some (dropWhile is_space s))"

fun lit :: "char \<Rightarrow> string \<Rightarrow> string option" where
  "lit c [] = None"
| "lit c (x # xs) = (if x = c then Some xs else None)"

definition match_rfc2822 :: "string \<Rightarrow> (string \<times> string \<times> string \<times> string \<times> string \<times> string) option" where
  "match_rfc2822 s =
     Option.bind (run_of is_alpha 3 3 s) (\<lambda>(wd, r).
     Option.bind (lit CHR '','' r) (\<lambda>r.
     Option.bind (spaces r) (\<lambda>r.
     Option.bind (run_of is_digit 1 2 r) (\<lambda>(g1, r).
     Option.bind (spaces r) (\<lambda>r.
     Option.bind (run_of is_alpha 3 3 r) (\<lambda>(g2, r).
     Option.bind (spaces r) (\<lambda>r.
     Option.bind (run_of is_digit 4 4 r) (\<lambda>(g3, r).
     Option.bind (spaces r) (\<lambda>r.
     Option.bind (run_of is_digit 2 2 r) (\<lambda>(g4, r).
     Option.bind (lit CHR '':'' r) (\<lambda>r.
     Option.bind (run_of is_digit 2 2 r) (\<lambda>(g5, r).
     Option.bind (lit CHR '':'' r) (\<lambda>r.
     Option.bind (run_of is_digit 2 2 r) (\<lambda>(g6, r).
     Option.bind (spaces r) (\<lambda>r.
     if r = ''GMT'' then Some (g1, g2, g3, g4, g5, g6) else None)))))))))))))))"

text \<open>The object \<open>months\<close>; a name it does not hold gives \<open>undefined\<close>.\<close>

definition months :: "string \<Rightarrow> jsnum" where
  "months name =
     (case map_of [(''Jan'', 0), (''Feb'', 1), (''Mar'', 2), (''Apr'', 3), (''May'', 4),
                   (''Jun'', 5), (''Jul'', 6), (''Aug'', 7), (''Sep'', 8), (''Oct'', 9),
                   (''Nov'', 10), (''Dec'', 11)] name of
        None \<Rightarrow> NaN
      | Some k \<Rightarrow> Num k)"

text \<open>
  \<open>parseLocalDate\<close>. \<open>!dateStr\<close> holds for \<open>null\<close> and for the empty string.
  \<open>first_segment c s\<close> is \<open>s.split(c)[0]\<close>. The array pattern
  \<open>[datePart, timePart]\<close> takes the first two pieces of \<open>clean.split('T')\<close>, and
  \<open>timePart\<close> is \<open>undefined\<close> when there is one piece only.
\<close>

definition parseLocalDate :: "host \<Rightarrow> string option \<Rightarrow> jsdate" where
  "parseLocalDate h dateStr =
     (case dateStr of
        None \<Rightarrow> now h
      | Some s \<Rightarrow>
          if s = [] then now h
          else
            (case match_rfc2822 s of
               Some (g1, g2, g3, g4, g5, g6) \<Rightarrow>
                 new_Date (parseInt10 g3) (months g2) (parseInt10 g1)
                          (parseInt10 g4) (parseInt10 g5) (parseInt10 g6)
             | None \<Rightarrow>
                 (let clean = replace_first CHR ''Z'' []
                                (first_segment CHR ''+'' (replace_first CHR '' '' ''T'' s))
                  in case split_on CHR ''T'' clean of
                       [] \<Rightarrow> date_of_string h s
                     | datePart # rest \<Rightarrow>
                         if datePart = [] then date_of_string h s
                         else
                           (let ymd = map js_Number (split_on CHR ''-'' datePart);
                                year = nth_num ymd 0;
                                month = nth_num ymd 1;
                                day = nth_num ymd 2
                            in case rest of
                                 timePart # others \<Rightarrow>
                                   if timePart \<noteq> []
                                   then
                                     (let hms = map js_Number (split_on CHR '':'' timePart)
                                      in new_Date (date_arg year) (date_arg (minus_one month))
                                           (date_arg day)
                                           (date_arg (or_zero (nth_num hms 0)))
                                           (date_arg (or_zero (nth_num hms 1)))
                                           (date_arg (or_zero (nth_num hms 2))))
                                   else new_Date (date_arg year) (date_arg (minus_one month))
                                          (date_arg day) (Num 0) (Num 0) (Num 0)
                               | [] \<Rightarrow> new_Date (date_arg year) (date_arg (minus_one month))
                                         (date_arg day) (Num 0) (Num 0) (Num 0)))))"

text \<open>The two keys the script builds from a date:
  \<open>`${d.getFullYear()}-${String(d.getMonth()+1).padStart(2,'0')}`\<close>, and the same
  followed by \<open>-${String(d.getDate()).padStart(2,'0')}\<close>.\<close>

definition monthKey :: "jsdate \<Rightarrow> string" where
  "monthKey d = js_String (getFullYear d) @ ''-'' @ padStart2 (js_String (num_plus (getMonth d) 1))"

definition dayKey :: "jsdate \<Rightarrow> string" where
  "dayKey d = monthKey d @ ''-'' @ padStart2 (js_String (getDate d))"

section \<open>The two wire encodings of a timestamp\<close>

text \<open>
  The texts the server sends for the fields \<open>(Y, M, D, h, m, s)\<close>: the RFC form
  \<open>Ddd, D Mon YYYY HH:MM:SS GMT\<close>, with a weekday name \<open>wd\<close> and the day written
  \<open>dd\<close>, and the ISO form \<open>YYYY-MM-DDTHH:MM:SS\<close>.
\<close>

definition digits2 :: "nat \<Rightarrow> string" where
  "digits2 n = [digit_char (n div 10 mod 10), digit_char (n mod 10)]"

definition digits4 :: "nat \<Rightarrow> string" where
  "digits4 n = [digit_char (n div 1000 mod 10), digit_char (n div 100 mod 10),
                digit_char (n div 10 mod 10), digit_char (n mod 10)]"

definition month_abbr :: "nat \<Rightarrow> string" where
  "month_abbr m = [''Jan'', ''Feb'', ''Mar'', ''Apr'', ''May'', ''Jun'',
                   ''Jul'', ''Aug'', ''Sep'', ''Oct'', ''Nov'', ''Dec''] ! (m - 1)"

definition rfc2822_text :: "string \<Rightarrow> string \<Rightarrow> nat \<Rightarrow> nat \<Rightarrow> nat \<Rightarrow> nat \<Rightarrow> nat \<Rightarrow> string" where
  "rfc2822_text wd dd M Y hh mm ss =
     wd @ '', '' @ dd @ '' '' @ month_abbr M @ '' '' @ digits4 Y @ '' '' @
     digits2 hh @ '':'' @ digits2 mm @ '':'' @ digits2 ss @ '' GMT''"

definition iso_text :: "nat \<Rightarrow> nat \<Rightarrow> nat \<Rightarrow> nat \<Rightarrow> nat \<Rightarrow> nat \<Rightarrow> string" where
  "iso_text Y M D hh mm ss =
     (digits4 Y @ ''-'' @ digits2 M @ ''-'' @ digits2 D) @ ''T'' @
     (digits2 hh @ '':'' @ digits2 mm @ '':'' @ digits2 ss)"

section \<open>Filter pipeline\<close>

text \<open>
  An exception that leaves a handler: the only kind that arises here is the
  \<open>TypeError\<close> of calling a method on \<open>null\<close> or a method the value does not have.
  A handler gives the state it leaves behind and the exception, if one was thrown.
\<close>

datatype js_error = TypeError

type_synonym 'a handled = "'a \<times> js_error option"

text \<open>\<open>x || ''\<close> for a string that may be \<open>null\<close>.\<close>

fun or_empty :: "string option \<Rightarrow> string" where
  "or_empty None = []"
| "or_empty (Some s) = s"

definition NEIGHBORHOOD_KEYWORDS :: "(string \<times> string list) list" where
  "NEIGHBORHOOD_KEYWORDS =
     [(''Rittenhouse'', [''rittenhouse'', ''sansom'', ''walnut street'']),
      (''Fairmount Park'', [''fairmount'', ''kelly drive'', ''west river drive'',
                            ''schuylkill'', ''wissahickon'']),
      (''Old City'', [''old city'', ''independence'', ''2nd st'', ''old city arts'']),
      (''Northern Liberties'', [''northern liberties'', ''liberty'']),
      (''Queen Village'', [''queen village'', ''south street'']),
      (''Graduate Hospital'', [''graduate hospital'']),
      (''Kensington'', [''kensington'']),
      (''Fishtown'', [''fishtown'', ''frankford ave'', ''johnny brenda'']),
      (''Manayunk'', [''manayunk'']),
      (''Brewerytown'', [''brewerytown'', ''yards brewing'']),
      (''Point Breeze'', [''point breeze'', ''passyunk'', ''grays ferry'']),
      (''Chestnut Hill'', [''chestnut hill'']),
      (''West Philly'', [''west philly'', ''clark park'', ''43rd'',
                         ''university of pennsylvania'', ''franklin field'']),
      (''Passyunk'', [''passyunk'', ''east passyunk''])]"

text \<open>
  \<open>NEIGHBORHOOD_KEYWORDS\<close> is an object literal, and \<open>NEIGHBORHOOD_KEYWORDS[name]\<close>
  is a property read: an own property gives its keyword array; a name the object
  inherits from \<open>Object.prototype\<close> gives that function or object, which is truthy and
  has no method \<open>some\<close>; any other name gives \<open>undefined\<close>.
\<close>

definition object_prototype_names :: "string list" where
  "object_prototype_names =
     [''constructor'', ''toString'', ''toLocaleString'', ''valueOf'', ''hasOwnProperty'',
      ''isPrototypeOf'', ''propertyIsEnumerable'', ''__proto__'', ''__defineGetter__'',
      ''__defineSetter__'', ''__lookupGetter__'', ''__lookupSetter__'']"

datatype property = Undefined | Keywords "string list" | Inherited

definition keywords_property :: "string \<Rightarrow> property" where
  "keywords_property name =
     (case map_of NEIGHBORHOOD_KEYWORDS name of
        Some kws \<Rightarrow> Keywords kws
      | None \<Rightarrow> if name \<in> set object_prototype_names then Inherited else Undefined)"

definition matchesCategory :: "app_state \<Rightarrow> event \<Rightarrow> bool" where
  "matchesCategory st e = (currentCategory st = ''all'' \<or> category e = Some (currentCategory st))"

definition matchesMonth :: "host \<Rightarrow> app_state \<Rightarrow> event \<Rightarrow> bool" where
  "matchesMonth h st e =
     (if currentMonth st \<noteq> ''all''
      then monthKey (parseLocalDate h (start_date e)) = currentMonth st
      else True)"

definition matchesSource :: "app_state \<Rightarrow> event \<Rightarrow> bool" where
  "matchesSource st e =
     (currentSource st = ''all'' \<or> js_trim (or_empty (source e)) = currentSource st)"

text \<open>\<open>keywords.some(kw => loc.includes(kw))\<close> with
  \<open>keywords = NEIGHBORHOOD_KEYWORDS[currentNeighborhood] || []\<close>.\<close>

definition matchesNeighborhood :: "app_state \<Rightarrow> event \<Rightarrow> js_error + bool" where
  "matchesNeighborhood st e =
     (if currentNeighborhood st \<noteq> ''all''
      then (case keywords_property (currentNeighborhood st) of
              Undefined \<Rightarrow> Inr (list_ex (js_includes (toLowerCase (or_empty (location e)))) [])
            | Keywords kws \<Rightarrow> Inr (list_ex (js_includes (toLowerCase (or_empty (location e)))) kws)
            | Inherited \<Rightarrow> Inl TypeError)
      else Inr True)"

text \<open>
  \<open>query === '' || (event.title.toLowerCase().includes(query) || ...)\<close>: the three
  fields are read in this order, each only if the ones before did not match, and
  \<open>toLowerCase\<close> of a field that is \<open>null\<close> throws.
\<close>

definition matchesSearch :: "string \<Rightarrow> event \<Rightarrow> js_error + bool" where
  "matchesSearch query e =
     (if query = [] then Inr True
      else (case title e of
              None \<Rightarrow> Inl TypeError
            | Some t \<Rightarrow>
                if js_includes (toLowerCase t) query then Inr True
                else (case description e of
                        None \<Rightarrow> Inl TypeError
                      | Some d \<Rightarrow>
                          if js_includes (toLowerCase d) query then Inr True
                          else (case location e of
                                  None \<Rightarrow> Inl TypeError
                                | Some l \<Rightarrow> Inr (js_includes (toLowerCase l) query)))))"

text \<open>The callback of \<open>applyFilters\<close> and the callback of \<open>handleSearch\<close>: every
  predicate is computed before the conjunction is returned.\<close>

definition filter_callback :: "host \<Rightarrow> app_state \<Rightarrow> event \<Rightarrow> js_error + bool" where
  "filter_callback h st e =
     (case matchesNeighborhood st e of
        Inl err \<Rightarrow> Inl err
      | Inr nb \<Rightarrow> Inr (matchesCategory st e \<and> matchesMonth h st e \<and> matchesSource st e \<and> nb))"

definition search_callback :: "host \<Rightarrow> app_state \<Rightarrow> string \<Rightarrow> event \<Rightarrow> js_error + bool" where
  "search_callback h st query e =
     (case matchesNeighborhood st e of
        Inl err \<Rightarrow> Inl err
      | Inr nb \<Rightarrow>
          (case matchesSearch query e of
             Inl err \<Rightarrow> Inl err
           | Inr sr \<Rightarrow>
               Inr (matchesCategory st e \<and> matchesMonth h st e \<and> matchesSource st e \<and> nb \<and> sr)))"

text \<open>\<open>Array.prototype.filter\<close> with a callback that may throw: the elements are
  visited in order and the first exception ends the call.\<close>

fun js_filter :: "('a \<Rightarrow> js_error + bool) \<Rightarrow> 'a list \<Rightarrow> js_error + 'a list" where
  "js_filter f [] = Inr []"
| "js_filter f (x # xs) =
     (case f x of
        Inl err \<Rightarrow> Inl err
      | Inr keep \<Rightarrow>
          (case js_filter f xs of
             Inl err \<Rightarrow> Inl err
           | Inr r \<Rightarrow> Inr (if keep then x # r else r)))"

text \<open>
  \<open>applyFilters\<close> and \<open>handleSearch\<close> assign \<open>filteredEvents\<close> and render; when the
  callback throws, the assignment does not happen and nothing is rendered.
  \<open>handleSearch\<close> gets the text of the search box.
\<close>

definition applyFilters :: "host \<Rightarrow> app_state \<Rightarrow> app_state handled" where
  "applyFilters h st =
     (case js_filter (filter_callback h st) (allEvents st) of
        Inl err \<Rightarrow> (st, Some err)
      | Inr r \<Rightarrow> (st\<lparr>filteredEvents := r\<rparr>, None))"

definition handleSearch :: "host \<Rightarrow> string \<Rightarrow> app_state \<Rightarrow> app_state handled" where
  "handleSearch h text st =
     (case js_filter (search_callback h st (toLowerCase text)) (allEvents st) of
        Inl err \<Rightarrow> (st, Some err)
      | Inr r \<Rightarrow> (st\<lparr>filteredEvents := r\<rparr>, None))"

definition handleNeighborhoodFilter :: "host \<Rightarrow> string \<Rightarrow> app_state \<Rightarrow> app_state handled" where
  "handleNeighborhoodFilter h neighborhood st =
     applyFilters h
       (if currentNeighborhood st = neighborhood
        then st\<lparr>currentNeighborhood := ''all''\<rparr>
        else st\<lparr>currentNeighborhood := neighborhood\<rparr>)"

section \<open>Day-grouped rendering\<close>

text \<open>
  \<open>escapeHtml\<close>: the five replacements, each of every occurrence, in the order of
  the source.
\<close>

definition replace_all :: "char \<Rightarrow> string \<Rightarrow> string \<Rightarrow> string" where
  "replace_all c r s = concat (map (\<lambda>x. if x = c then r else [x]) s)"

definition escapeHtml :: "string option \<Rightarrow> string" where
  "escapeHtml str =
     (case str of
        None \<Rightarrow> []
      | Some s \<Rightarrow>
          replace_all (CHR 0x27) ''&#39;''
            (replace_all (CHR 0x22) ''&quot;''
              (replace_all CHR ''>'' ''&gt;''
                (replace_all CHR ''<'' ''&lt;''
                  (replace_all CHR ''&'' ''&amp;'' s)))))"

text \<open>
  One row of the list, as the pieces of markup that depend on the event: the content
  of the time column (\<open>CHR 0x22\<close> is the double quote of the \<open>class\<close>
  attribute), the escaped title, the category class, and the location and price spans'
  texts (empty when the span is left out).
\<close>

text \<open>A string that may be \<open>null\<close>, inside a template literal.\<close>

fun template_text :: "string option \<Rightarrow> string" where
  "template_text None = ''null''"
| "template_text (Some s) = s"

record event_row =
  row_index :: nat
  time_col :: string
  row_title :: string
  category_class :: string
  row_location :: string
  row_price :: string

definition hasTime :: "jsdate \<Rightarrow> bool" where
  "hasTime startDate = (not_zero (getHours startDate) \<or> not_zero (getMinutes startDate))"

definition createEventRow :: "host \<Rightarrow> event \<Rightarrow> nat \<Rightarrow> event_row" where
  "createEventRow h e index =
     (let startDate = parseLocalDate h (start_date e);
          timeStr = (if hasTime startDate then toLocaleTimeString h startDate else [])
      in \<lparr>row_index = index,
          time_col =
            (if hasTime startDate
             then ''<span class='' @ [CHR 0x22] @ ''event-time'' @ [CHR 0x22] @ ''>'' @
                  escapeHtml (Some timeStr) @ ''</span>''
             else ''<span class='' @ [CHR 0x22] @ ''event-time-tbd'' @ [CHR 0x22] @
                  ''>Time TBD</span>''),
          row_title = escapeHtml (title e),
          category_class = ''category-'' @ template_text (category e),
          row_location = escapeHtml (location e),
          row_price = escapeHtml (price e)\<rparr>)"

text \<open>
  \<open>renderGroupedByDay\<close>. \<open>byDay\<close> maps a day key to the items pushed under it and
  \<open>dayOrder\<close> lists the keys by first appearance; a day key contains a hyphen, so
  it is never a name \<open>byDay\<close> inherits. \<open>dayOrder.sort()\<close> orders the keys as strings,
  by code units. Each group is its key, the today flag and its rows.
\<close>

type_synonym day_item = "event \<times> nat"

definition group_step ::
  "host \<Rightarrow> (string \<rightharpoonup> day_item list) \<times> string list \<Rightarrow> day_item \<Rightarrow>
   (string \<rightharpoonup> day_item list) \<times> string list" where
  "group_step h acc item =
     (let byDay = fst acc; dayOrder = snd acc;
          key = dayKey (parseLocalDate h (start_date (fst item)))
      in case byDay key of
           None \<Rightarrow> (byDay(key \<mapsto> [item]), dayOrder @ [key])
         | Some items \<Rightarrow> (byDay(key \<mapsto> items @ [item]), dayOrder))"

definition group_by_day :: "host \<Rightarrow> event list \<Rightarrow> (string \<rightharpoonup> day_item list) \<times> string list" where
  "group_by_day h events =
     foldl (group_step h) (Map.empty, []) (zip events [0..<length events])"

definition day_buckets :: "host \<Rightarrow> event list \<Rightarrow> (string \<times> day_item list) list" where
  "day_buckets h events =
     (let (byDay, dayOrder) = group_by_day h events
      in map (\<lambda>key. (key, case byDay key of None \<Rightarrow> [] | Some items \<Rightarrow> items))
             (sort dayOrder))"

definition todayKey :: "host \<Rightarrow> string" where
  "todayKey h = dayKey (now h)"

record day_group =
  group_key :: string
  is_today :: bool
  group_rows :: "event_row list"

definition renderGroupedByDay :: "host \<Rightarrow> app_state \<Rightarrow> day_group list" where
  "renderGroupedByDay h st =
     map (\<lambda>(key, items).
            \<lparr>group_key = key, is_today = (key = todayKey h),
             group_rows = map (\<lambda>(e, index). createEventRow h e index) items\<rparr>)
         (day_buckets h (filteredEvents st))"

section \<open>The predicates of the specification\<close>

text \<open>
  The neighborhood and search predicates as the specification words them, to compare
  with the ones the callbacks compute: the lowercased location contains a keyword of
  the selected neighborhood (or the selection is \<open>all\<close>); the lowercased query is a
  substring of the title, the description or the location (or the query is empty).
\<close>

definition in_neighborhood :: "string \<Rightarrow> event \<Rightarrow> bool" where
  "in_neighborhood nb e =
     (nb = ''all'' \<or>
      (case map_of NEIGHBORHOOD_KEYWORDS nb of
         None \<Rightarrow> False
       | Some kws \<Rightarrow> list_ex (js_includes (toLowerCase (or_empty (location e)))) kws))"

definition query_found :: "string \<Rightarrow> event \<Rightarrow> bool" where
  "query_found query e =
     (query = [] \<or>
      js_includes (toLowerCase (or_empty (title e))) query \<or>
      js_includes (toLowerCase (or_empty (description e))) query \<or>
      js_includes (toLowerCase (or_empty (location e))) query)"

definition all_predicates :: "host \<Rightarrow> app_state \<Rightarrow> event \<Rightarrow> bool" where
  "all_predicates h st e =
     (matchesCategory st e \<and> matchesMonth h st e \<and> matchesSource st e \<and>
      in_neighborhood (currentNeighborhood st) e)"

definition text_fields_present :: "event \<Rightarrow> bool" where
  "text_fields_present e = (title e \<noteq> None \<and> description e \<noteq> None \<and> location e \<noteq> None)"

section \<open>Sample values\<close>

text \<open>A host and an event as the server may send it (no location), for the examples.\<close>

definition sample_host :: host where
  "sample_host =
     \<lparr>now = TimeValue 0, date_of_string = (\<lambda>s. InvalidDate), toLocaleTimeString = (\<lambda>d. [])\<rparr>"

definition jazz_night :: event where
  "jazz_night =
     \<lparr>ev_id = 1, title = Some ''Jazz Night'', description = Some ''Live music'',
      start_date = Some ''2026-03-01T00:00:00'', location = None, category = Some ''music'',
      price = None, source = Some ''Eventbrite''\<rparr>"

text \<open>Two events of the same day, the later one first in the list.\<close>

definition at_ten :: event where
  "at_ten = jazz_night\<lparr>ev_id := 2, start_date := Some ''2026-03-02T10:00:00''\<rparr>"

definition at_eight :: event where
  "at_eight = jazz_night\<lparr>ev_id := 3, start_date := Some ''Mon, 02 Mar 2026 08:00:00 GMT''\<rparr>"

section \<open>Notions for the day grouping\<close>

text \<open>
  The day key of an item, the items of a list that have a given key, in the order of
  the list, and what the loop of \<open>renderGroupedByDay\<close> maintains: after the items
  \<open>its\<close>, \<open>byDay\<close> holds under each key the items of that key and \<open>dayOrder\<close> holds
  each key of an item once.
\<close>

definition key_of :: "host \<Rightarrow> day_item \<Rightarrow> string" where
  "key_of h item = dayKey (parseLocalDate h (start_date (fst item)))"

definition items_of :: "host \<Rightarrow> day_item list \<Rightarrow> string \<Rightarrow> day_item list" where
  "items_of h its k = filter (\<lambda>item. key_of h item = k) its"

definition grouped ::
  "host \<Rightarrow> day_item list \<Rightarrow> (string \<rightharpoonup> day_item list) \<times> string list \<Rightarrow> bool" where
  "grouped h its acc =
     (fst acc = (\<lambda>k. if items_of h its k = [] then None else Some (items_of h its k)) \<and>
      distinct (snd acc) \<and> set (snd acc) = key_of h ` set its)"

section \<open>Offline cache worker\<close>

text \<open>
  The service worker's \<open>fetch\<close> listener. A request is its URL, its method and its
  headers; of a response the model keeps the status, the field names of its \<open>Vary\<close>
  header and the body. A cache is a list of pairs of a request and its response, and
  the cache storage holds the named caches in the order of their creation.

  The Cache interface of the browser. A cached pair matches a request when the two
  URLs are equal up to their fragments and, for each field that the cached response's
  \<open>Vary\<close> names, the cached request and the request carry the same value (a field
  \<open>*\<close> matches nothing). \<open>caches.match\<close> returns the response of the first
  matching pair of the first cache that has one, and nothing for a request that is not
  a \<open>GET\<close>. \<open>cache.put\<close> rejects a request that is not an http(s) \<open>GET\<close> and a
  response with status 206 or with \<open>*\<close> in \<open>Vary\<close>; otherwise it removes the pairs
  that match the request and adds the new pair. The worker does not wait for
  \<open>cache.put\<close> and does not handle its rejection.
\<close>

record request =
  req_url :: string
  req_method :: string
  req_headers :: "(string \<times> string) list"

record response =
  status :: nat
  vary :: "string list"
  body :: string

type_synonym cache = "(request \<times> response) list"
type_synonym cache_storage = "(string \<times> cache) list"

definition CACHE_NAME :: string where
  "CACHE_NAME = ''philly-calendar-v14''"

definition urlsToCache :: "string list" where
  "urlsToCache = [''/'', ''/static/styles.css?v=14'', ''/static/app.js?v=9'']"

definition strip_fragment :: "string \<Rightarrow> string" where
  "strip_fragment url = takeWhile (\<lambda>c. c \<noteq> CHR ''#'') url"

text \<open>The value of a header; header names are compared without regard to case.\<close>

definition header_value :: "request \<Rightarrow> string \<Rightarrow> string option" where
  "header_value req name =
     map_of (map (\<lambda>kv. (toLowerCase (fst kv), snd kv)) (req_headers req)) (toLowerCase name)"

definition cached_item_matches :: "request \<Rightarrow> request \<times> response \<Rightarrow> bool" where
  "cached_item_matches query item =
     (strip_fragment (req_url (fst item)) = strip_fragment (req_url query) \<and>
      list_all (\<lambda>field. field \<noteq> ''*'' \<and> header_value (fst item) field = header_value query field)
               (vary (snd item)))"

definition cache_query :: "cache \<Rightarrow> request \<Rightarrow> response option" where
  "cache_query c query = map_option snd (find (cached_item_matches query) c)"

fun caches_match :: "cache_storage \<Rightarrow> request \<Rightarrow> response option" where
  "caches_match [] req = None"
| "caches_match ((name, c) # rest) req =
     (if req_method req \<noteq> ''GET'' then None
      else (case cache_query c req of
              Some r \<Rightarrow> Some r
            | None \<Rightarrow> caches_match rest req))"

definition caches_open :: "cache_storage \<Rightarrow> string \<Rightarrow> cache_storage" where
  "caches_open store name =
     (if name \<in> set (map fst store) then store else store @ [(name, [])])"

definition put_accepts :: "request \<Rightarrow> response \<Rightarrow> bool" where
  "put_accepts req r =
     (req_method req = ''GET'' \<and>
      (starts_with (req_url req) ''http://'' \<or> starts_with (req_url req) ''https://'') \<and>
      status r \<noteq> 206 \<and> ''*'' \<notin> set (vary r))"

definition put_entry :: "request \<Rightarrow> response \<Rightarrow> cache \<Rightarrow> cache" where
  "put_entry req r c = filter (\<lambda>item. \<not> cached_item_matches req item) c @ [(req, r)]"

definition cache_put :: "cache_storage \<Rightarrow> string \<Rightarrow> request \<Rightarrow> response \<Rightarrow> cache_storage" where
  "cache_put store name req r =
     (if put_accepts req r
      then map (\<lambda>(n, c). if n = name then (n, put_entry req r c) else (n, c)) store
      else store)"

text \<open>\<open>event.request.url.includes('/events')\<close>\<close>

definition events_bearing :: "request \<Rightarrow> bool" where
  "events_bearing req = js_includes (req_url req) ''/events''"

text \<open>
  The listener answers with the cached response if there is one, and with the
  network's otherwise (\<open>None\<close>: \<open>fetch\<close> rejects and the page gets a network error).
  The result is the response and the cache storage once \<open>cache.put\<close> has settled.
\<close>

definition sw_fetch ::
  "(request \<Rightarrow> response option) \<Rightarrow> cache_storage \<Rightarrow> request \<Rightarrow> response option \<times> cache_storage" where
  "sw_fetch network store req =
     (case caches_match store req of
        Some cached \<Rightarrow> (Some cached, store)
      | None \<Rightarrow>
          (case network req of
             None \<Rightarrow> (None, store)
           | Some fetchResponse \<Rightarrow>
               if events_bearing req
               then (Some fetchResponse,
                     cache_put (caches_open store CACHE_NAME) CACHE_NAME req fetchResponse)
               else (Some fetchResponse, store)))"

text \<open>Requests and a response for the examples.\<close>

definition get_request :: "string \<Rightarrow> request" where
  "get_request url = \<lparr>req_url = url, req_method = ''GET'', req_headers = []\<rparr>"

definition ok_response :: response where
  "ok_response = \<lparr>status = 200, vary = [], body = ''{}''\<rparr>"

section \<open>Properties of bookmarks and saves\<close>

lemma migrate_posts: "migrate net ids = map SavePost ids"
  by (induction ids) (auto split: fetch_outcome.splits)

lemma loadUserSaves_frame:
  "bookmarkedIds (fst (loadUserSaves net st)) = bookmarkedIds st \<and>
   localStorage (fst (loadUserSaves net st)) = localStorage st \<and>
   toasts (fst (loadUserSaves net st)) = toasts st \<and>
   currentUser (fst (loadUserSaves net st)) = currentUser st"
  by (simp add: loadUserSaves_def split: option.splits fetch_outcome.splits)

lemma loadUserSaves_requests:
  "snd (loadUserSaves net st) = (if currentUser st = None then [] else [SavesGet])"
  by (simp add: loadUserSaves_def split: option.splits fetch_outcome.splits)

text \<open>
  C10. \<open>toggleBookmark\<close> flips the membership of the given id and of no other id,
  writes the updated set to \<open>localStorage\<close>, and applied twice gives back the original
  bookmark set.
\<close>

theorem toggleBookmark_flips:
  "set (bookmarkedIds (toggleBookmark eventId st)) =
     (if eventId \<in> set (bookmarkedIds st)
      then set (bookmarkedIds st) - {eventId}
      else insert eventId (set (bookmarkedIds st))) \<and>
   localStorage (toggleBookmark eventId st) = Some (bookmarkedIds (toggleBookmark eventId st)) \<and>
   set (bookmarkedIds (toggleBookmark eventId (toggleBookmark eventId st))) =
     set (bookmarkedIds st)"
  by (auto simp: toggleBookmark_def saveBookmarks_def showToast_def set_add_def set_delete_def)

text \<open>
  C5. \<open>toggleSave\<close> by identity tier. Anonymous: it is \<open>toggleBookmark\<close> and sends
  nothing. Authenticated: it sends exactly one request, a \<open>DELETE\<close> when the id is in
  the local mirror \<open>savedEventIds\<close> and a \<open>POST\<close> otherwise; the mirror changes only
  when the server's answer has \<open>success\<close> set; on a rejected request, a body that is
  not JSON or an answer without \<open>success\<close> the mirror is the one before; the
  bookmarks are untouched.
\<close>

theorem toggleSave_tiers:
  "(currentUser st = None \<longrightarrow> toggleSave eventId net st = (toggleBookmark eventId st, [])) \<and>
   (currentUser st \<noteq> None \<longrightarrow>
      snd (toggleSave eventId net st) =
        [if eventId \<in> set (savedEventIds st) then SaveDelete eventId else SavePost eventId] \<and>
      savedEventIds (fst (toggleSave eventId net st)) =
        (if confirmed_by_server (net (hd (snd (toggleSave eventId net st))))
         then (if eventId \<in> set (savedEventIds st)
               then set_delete (savedEventIds st) eventId
               else set_add (savedEventIds st) eventId)
         else savedEventIds st) \<and>
      bookmarkedIds (fst (toggleSave eventId net st)) = bookmarkedIds st \<and>
      localStorage (fst (toggleSave eventId net st)) = localStorage st)"
  by (auto simp: toggleSave_def showToast_def split: option.splits fetch_outcome.splits)

theorem toggleSave_tiers_witness:
  "toggleSave 7 (\<lambda>r. Rejected) initial_state = (toggleBookmark 7 initial_state, []) \<and>
   savedEventIds (fst (toggleSave 7 (\<lambda>r. Rejected)
     (initial_state\<lparr>currentUser := Some \<lparr>user_id = 1, email = ''a@b.c'', display_name = None\<rparr>,
        savedEventIds := [7]\<rparr>))) = [7]"
  using
    toggleSave_tiers [of initial_state 7 "\<lambda>r. Rejected"]
    toggleSave_tiers [of
      "initial_state\<lparr>currentUser := Some \<lparr>user_id = 1, email = ''a@b.c'', display_name = None\<rparr>,
         savedEventIds := [7]\<rparr>"
      7 "\<lambda>r. Rejected"]
  by (simp add: initial_state_def)

text \<open>
  C3. \<open>onLoginSuccess\<close> submits one \<open>POST\<close> per bookmarked id, in the set's order and
  each id once, whatever the outcomes of the requests (then one \<open>GET\<close> of the saves);
  no error is shown for a failed request; afterwards the in-memory bookmark set is
  empty, and the persisted array is rewritten to the empty array whenever there was a
  bookmark to migrate, so that a \<open>localStorage\<close> that mirrored the set holds no id.
\<close>

theorem onLoginSuccess_migrates:
  "snd (onLoginSuccess u net st) = map SavePost (bookmarkedIds st) @ [SavesGet] \<and>
   bookmarkedIds (fst (onLoginSuccess u net st)) = [] \<and>
   localStorage (fst (onLoginSuccess u net st)) =
     (if bookmarkedIds st = [] then localStorage st else Some []) \<and>
   (stored_ids (localStorage st) = set (bookmarkedIds st) \<longrightarrow>
      stored_ids (localStorage (fst (onLoginSuccess u net st))) = {}) \<and>
   toasts (fst (onLoginSuccess u net st)) = toasts st @ [Welcome (firstName u)] \<and>
   \<not> toast_is_error (Welcome (firstName u))"
proof -
  let ?st1 = "st\<lparr>currentUser := Some u\<rparr>"
  let ?st2 = "if bookmarkedIds st \<noteq> []
              then saveBookmarks (?st1\<lparr>bookmarkedIds := []\<rparr>) else ?st1"
  have fst_eq: "fst (onLoginSuccess u net st) =
                  showToast (Welcome (firstName u)) (fst (loadUserSaves net ?st2))"
    by (simp add: onLoginSuccess_def Let_def split: prod.splits)
  have snd_eq: "snd (onLoginSuccess u net st) =
                  (if bookmarkedIds st \<noteq> [] then migrate net (bookmarkedIds st) else [])
                  @ snd (loadUserSaves net ?st2)"
    by (simp add: onLoginSuccess_def Let_def split: prod.splits)
  have user2: "currentUser ?st2 = Some u"
    by (simp add: saveBookmarks_def)
  have ids2: "bookmarkedIds ?st2 = []"
    by (simp add: saveBookmarks_def)
  have store2: "localStorage ?st2 = (if bookmarkedIds st = [] then localStorage st else Some [])"
    by (simp add: saveBookmarks_def)
  have toasts2: "toasts ?st2 = toasts st"
    by (simp add: saveBookmarks_def)
  have reqs: "snd (onLoginSuccess u net st) = map SavePost (bookmarkedIds st) @ [SavesGet]"
    unfolding snd_eq loadUserSaves_requests user2 by (simp add: migrate_posts)
  have ids: "bookmarkedIds (fst (onLoginSuccess u net st)) = []"
    unfolding fst_eq using loadUserSaves_frame [of net ?st2] ids2
    by (simp add: showToast_def)
  have store: "localStorage (fst (onLoginSuccess u net st)) =
                 (if bookmarkedIds st = [] then localStorage st else Some [])"
    unfolding fst_eq using loadUserSaves_frame [of net ?st2] store2
    by (simp add: showToast_def)
  have tsts: "toasts (fst (onLoginSuccess u net st)) = toasts st @ [Welcome (firstName u)]"
    unfolding fst_eq using loadUserSaves_frame [of net ?st2] toasts2
    by (simp add: showToast_def)
  have mirror: "stored_ids (localStorage st) = set (bookmarkedIds st) \<longrightarrow>
                  stored_ids (localStorage (fst (onLoginSuccess u net st))) = {}"
    unfolding store by (simp add: stored_ids_def)
  from reqs ids store mirror tsts show ?thesis by simp
qed

theorem onLoginSuccess_migrates_witness:
  "stored_ids (Some [1, 2, 3]) = set [1, 2, 3] \<and>
   snd (onLoginSuccess \<lparr>user_id = 1, email = ''a@b.c'', display_name = None\<rparr>
          (\<lambda>r. if r = SavePost 2 then Rejected else Body \<lparr>success = True, event_ids = [1, 3]\<rparr>)
          (initial_state\<lparr>bookmarkedIds := [1, 2, 3], localStorage := Some [1, 2, 3]\<rparr>))
     = [SavePost 1, SavePost 2, SavePost 3, SavesGet] \<and>
   stored_ids (localStorage (fst
     (onLoginSuccess \<lparr>user_id = 1, email = ''a@b.c'', display_name = None\<rparr>
          (\<lambda>r. if r = SavePost 2 then Rejected else Body \<lparr>success = True, event_ids = [1, 3]\<rparr>)
          (initial_state\<lparr>bookmarkedIds := [1, 2, 3], localStorage := Some [1, 2, 3]\<rparr>)))) = {}"
  using onLoginSuccess_migrates [of
      "\<lparr>user_id = 1, email = ''a@b.c'', display_name = None\<rparr>"
      "\<lambda>r. if r = SavePost 2 then Rejected else Body \<lparr>success = True, event_ids = [1, 3]\<rparr>"
      "initial_state\<lparr>bookmarkedIds := [1, 2, 3], localStorage := Some [1, 2, 3]\<rparr>"]
  by (simp add: stored_ids_def initial_state_def)

section \<open>Properties of the fallbacks of \<open>parseLocalDate\<close>\<close>

lemma new_Date_NaN_year: "new_Date NaN m d hh mi ss = InvalidDate"
  by simp

text \<open>
  \<open>Number\<close> reads more than decimal digits: a hexadecimal year is a year, and a text
  whose year is written so parses to a valid date.
\<close>

lemma js_Number_literals:
  "js_Number ''2026'' = Finite 2026 0 \<and> js_Number ''0x7EA'' = Finite 2026 0 \<and>
   js_Number ''1e3'' = Finite 1 3 \<and> js_Number ''45.5'' = Finite 455 (- 1) \<and>
   js_Number '' 07 '' = Finite 7 0 \<and> js_Number [] = Finite 0 0 \<and>
   js_Number ''Infinity'' = PosInfinity \<and> js_Number ''-Infinity'' = NegInfinity \<and>
   js_Number ''garbage'' = NotANumber \<and> js_Number ''12px'' = NotANumber \<and>
   js_Number ''0x'' = NotANumber \<and> js_Number ''-0x10'' = NotANumber"
  by code_simp

lemma parseLocalDate_hexadecimal_year:
  "parseLocalDate h (Some ''0x7EA-01-01'') = parseLocalDate h (Some ''2026-01-01'') \<and>
   parseLocalDate h (Some ''0x7EA-01-01'') \<noteq> InvalidDate \<and>
   parseLocalDate h (Some ''1e3-01-01'') = parseLocalDate h (Some ''1000-01-01'') \<and>
   parseLocalDate h (Some ''Infinity-01-01'') = InvalidDate"
  by code_simp

text \<open>
  C7, as the claim states it, fails: \<open>garbage\<close> is not empty and matches neither
  encoding, and \<open>parseLocalDate\<close> returns an invalid date for it, not the current time.
\<close>

theorem parseLocalDate_garbage_counterexample:
  "parseLocalDate \<lparr>now = TimeValue 0, date_of_string = (\<lambda>s. TimeValue 0),
                   toLocaleTimeString = (\<lambda>d. [])\<rparr> (Some ''garbage'') = InvalidDate \<and>
   parseLocalDate \<lparr>now = TimeValue 0, date_of_string = (\<lambda>s. TimeValue 0),
                   toLocaleTimeString = (\<lambda>d. [])\<rparr> (Some ''garbage'')
     \<noteq> now \<lparr>now = TimeValue 0, date_of_string = (\<lambda>s. TimeValue 0),
              toLocaleTimeString = (\<lambda>d. [])\<rparr>"
  by code_simp

text \<open>
  C7, amended. \<open>parseLocalDate\<close> returns the current time for \<open>null\<close> and for the
  empty string, and only then: for a string that is not empty the result does not
  depend on the current time. It is a total function (nothing is thrown), and its
  result is an invalid date when the text is not in the RFC form and the first field
  of its date part is not a finite number for \<open>Number\<close>.
\<close>

theorem parseLocalDate_fallback:
  "parseLocalDate h None = now h \<and>
   parseLocalDate h (Some []) = now h \<and>
   (s \<noteq> [] \<longrightarrow> parseLocalDate (h\<lparr>now := t\<rparr>) (Some s) = parseLocalDate h (Some s)) \<and>
   (s \<noteq> [] \<and> match_rfc2822 s = None \<and>
    split_on CHR ''T'' (replace_first CHR ''Z'' []
       (first_segment CHR ''+'' (replace_first CHR '' '' ''T'' s))) = datePart # rest \<and>
    datePart \<noteq> [] \<and> date_arg (js_Number (first_segment CHR ''-'' datePart)) = NaN
    \<longrightarrow> parseLocalDate h (Some s) = InvalidDate)"
proof -
  have indep: "s \<noteq> [] \<longrightarrow> parseLocalDate (h\<lparr>now := t\<rparr>) (Some s) = parseLocalDate h (Some s)"
    by (simp add: parseLocalDate_def Let_def split: option.splits list.splits)
  have head: "split_on c x \<noteq> [] \<and> hd (split_on c x) = first_segment c x" for c x
    by (induction x) (auto simp: first_segment_def split: list.splits)
  have year: "nth_num (map js_Number (split_on CHR ''-'' x)) 0 = js_Number (first_segment CHR ''-'' x)"
    for x
    using head [of "CHR ''-''" x] by (cases "split_on CHR ''-'' x") (auto simp: nth_num_def)
  have invalid:
    "s \<noteq> [] \<and> match_rfc2822 s = None \<and>
     split_on CHR ''T'' (replace_first CHR ''Z'' []
       (first_segment CHR ''+'' (replace_first CHR '' '' ''T'' s))) = datePart # rest \<and>
     datePart \<noteq> [] \<and> date_arg (js_Number (first_segment CHR ''-'' datePart)) = NaN
     \<longrightarrow> parseLocalDate h (Some s) = InvalidDate"
    by (auto simp: parseLocalDate_def Let_def year split: list.splits)
  show ?thesis
    using indep invalid by (simp add: parseLocalDate_def)
qed

theorem parseLocalDate_fallback_witness:
  "''garbage'' \<noteq> [] \<and>
   parseLocalDate \<lparr>now = TimeValue 86400000, date_of_string = (\<lambda>s. TimeValue 0),
                   toLocaleTimeString = (\<lambda>d. [])\<rparr> (Some ''garbage'') =
   parseLocalDate \<lparr>now = TimeValue 0, date_of_string = (\<lambda>s. TimeValue 0),
                   toLocaleTimeString = (\<lambda>d. [])\<rparr> (Some ''garbage'') \<and>
   parseLocalDate \<lparr>now = TimeValue 0, date_of_string = (\<lambda>s. TimeValue 0),
                   toLocaleTimeString = (\<lambda>d. [])\<rparr> (Some ''garbage'') = InvalidDate"
proof -
  let ?h = "\<lparr>now = TimeValue 0, date_of_string = (\<lambda>s. TimeValue 0),
             toLocaleTimeString = (\<lambda>d. [])\<rparr>"
  have a: "match_rfc2822 ''garbage'' = None" by code_simp
  have b: "split_on CHR ''T'' (replace_first CHR ''Z'' []
             (first_segment CHR ''+'' (replace_first CHR '' '' ''T'' ''garbage''))) = ''garbage'' # []"
    by code_simp
  have c: "date_arg (js_Number (first_segment CHR ''-'' ''garbage'')) = NaN" by code_simp
  from parseLocalDate_fallback [of ?h "''garbage''" "TimeValue 86400000" "''garbage''" "[]"] a b c
  show ?thesis by simp
qed

section \<open>Properties of the event row\<close>

lemma not_zero_iff: "not_zero x \<longleftrightarrow> x \<noteq> Num 0"
  by (cases x) auto

lemma time_col_cases:
  "time_col (createEventRow h e i) =
     (if getHours (parseLocalDate h (start_date e)) = Num 0 \<and>
         getMinutes (parseLocalDate h (start_date e)) = Num 0
      then ''<span class='' @ [CHR 0x22] @ ''event-time-tbd'' @ [CHR 0x22] @ ''>Time TBD</span>''
      else ''<span class='' @ [CHR 0x22] @ ''event-time'' @ [CHR 0x22] @ ''>'' @
           escapeHtml (Some (toLocaleTimeString h (parseLocalDate h (start_date e)))) @
           ''</span>'')"
  by (simp add: createEventRow_def Let_def hasTime_def not_zero_iff)

lemma sample_clock_fields:
  "getHours (parseLocalDate h (Some ''2026-03-01T00:00:00'')) = Num 0"
  "getMinutes (parseLocalDate h (Some ''2026-03-01T00:00:00'')) = Num 0"
  "getHours (parseLocalDate h (Some ''2026-03-01T00:00:45'')) = Num 0"
  "getMinutes (parseLocalDate h (Some ''2026-03-01T00:00:45'')) = Num 0"
  "getHours (parseLocalDate h (Some ''2026-03-01'')) = Num 0"
  "getMinutes (parseLocalDate h (Some ''2026-03-01'')) = Num 0"
  "getHours (parseLocalDate h (Some ''Wed, 18 Feb 2026 19:30:00 GMT'')) = Num 19"
  "getMinutes (parseLocalDate h (Some ''2026-03-01T00:30:00'')) = Num 30"
  "getHours (parseLocalDate h (Some ''2026-03-01 12:00:00'')) = Num 12"
  "parseLocalDate h (Some ''garbage'') = InvalidDate"
  by code_simp+

text \<open>
  C8. The time column of the row of an event holds the span with the label
  \<open>Time TBD\<close> when the hour and the minute of the parsed start are both 0, whatever
  the seconds, and the span with the formatted (and escaped) local start time
  otherwise. A start at midnight, a start 45 seconds after midnight and a date without
  a time all get \<open>Time TBD\<close>; starts at 19:30, at 00:30 and at 12:00 get their time,
  and so does a start that cannot be parsed, whose hour is \<open>NaN\<close>.
\<close>

theorem createEventRow_time_col:
  "time_col (createEventRow h e i) =
     (if getHours (parseLocalDate h (start_date e)) = Num 0 \<and>
         getMinutes (parseLocalDate h (start_date e)) = Num 0
      then ''<span class='' @ [CHR 0x22] @ ''event-time-tbd'' @ [CHR 0x22] @ ''>Time TBD</span>''
      else ''<span class='' @ [CHR 0x22] @ ''event-time'' @ [CHR 0x22] @ ''>'' @
           escapeHtml (Some (toLocaleTimeString h (parseLocalDate h (start_date e)))) @
           ''</span>'') \<and>
   time_col (createEventRow h (e\<lparr>start_date := Some ''2026-03-01T00:00:00''\<rparr>) i) =
     ''<span class='' @ [CHR 0x22] @ ''event-time-tbd'' @ [CHR 0x22] @ ''>Time TBD</span>'' \<and>
   time_col (createEventRow h (e\<lparr>start_date := Some ''2026-03-01T00:00:45''\<rparr>) i) =
     ''<span class='' @ [CHR 0x22] @ ''event-time-tbd'' @ [CHR 0x22] @ ''>Time TBD</span>'' \<and>
   time_col (createEventRow h (e\<lparr>start_date := Some ''2026-03-01''\<rparr>) i) =
     ''<span class='' @ [CHR 0x22] @ ''event-time-tbd'' @ [CHR 0x22] @ ''>Time TBD</span>'' \<and>
   time_col (createEventRow (h\<lparr>toLocaleTimeString := (\<lambda>d. ''7:30 PM'')\<rparr>)
               (e\<lparr>start_date := Some ''Wed, 18 Feb 2026 19:30:00 GMT''\<rparr>) i) =
     ''<span class='' @ [CHR 0x22] @ ''event-time'' @ [CHR 0x22] @ ''>7:30 PM</span>'' \<and>
   time_col (createEventRow (h\<lparr>toLocaleTimeString := (\<lambda>d. ''12:30 AM'')\<rparr>)
               (e\<lparr>start_date := Some ''2026-03-01T00:30:00''\<rparr>) i) =
     ''<span class='' @ [CHR 0x22] @ ''event-time'' @ [CHR 0x22] @ ''>12:30 AM</span>'' \<and>
   time_col (createEventRow (h\<lparr>toLocaleTimeString := (\<lambda>d. ''12 o'clock <noon> & more'')\<rparr>)
               (e\<lparr>start_date := Some ''2026-03-01 12:00:00''\<rparr>) i) =
     ''<span class='' @ [CHR 0x22] @ ''event-time'' @ [CHR 0x22] @
     ''>12 o&#39;clock &lt;noon&gt; &amp; more</span>'' \<and>
   time_col (createEventRow (h\<lparr>toLocaleTimeString := (\<lambda>d. ''Invalid Date'')\<rparr>)
               (e\<lparr>start_date := Some ''garbage''\<rparr>) i) =
     ''<span class='' @ [CHR 0x22] @ ''event-time'' @ [CHR 0x22] @ ''>Invalid Date</span>''"
proof -
  have esc: "escapeHtml (Some ''7:30 PM'') = ''7:30 PM''"
    "escapeHtml (Some ''12:30 AM'') = ''12:30 AM''"
    "escapeHtml (Some ''12 o'clock <noon> & more'') = ''12 o&#39;clock &lt;noon&gt; &amp; more''"
    "escapeHtml (Some ''Invalid Date'') = ''Invalid Date''"
    by code_simp+
  show ?thesis
    using esc by (simp add: time_col_cases sample_clock_fields)
qed

section \<open>Properties of the offline cache worker\<close>

lemma caches_match_miss:
  "req_method req = ''GET'' \<Longrightarrow> caches_match store req = None
   \<Longrightarrow> nc \<in> set store \<Longrightarrow> cache_query (snd nc) req = None"
  by (induction store) (auto split: option.splits)

lemma caches_match_all_miss:
  "(\<And>nc. nc \<in> set store \<Longrightarrow> cache_query (snd nc) req = None) \<Longrightarrow> caches_match store req = None"
proof (induction store)
  case Nil
  then show ?case by simp
next
  case (Cons nc store)
  obtain n c where nc: "nc = (n, c)" by (cases nc)
  have "cache_query c req = None"
    using Cons.prems [of nc] nc by simp
  moreover have "caches_match store req = None"
    using Cons.IH Cons.prems by simp
  ultimately show ?case
    using nc by simp
qed

lemma find_append_miss: "find P xs = None \<Longrightarrow> find P (xs @ ys) = find P ys"
  by (induction xs) (auto split: if_splits)

lemma item_matches_itself: "''*'' \<notin> set (vary r) \<Longrightarrow> cached_item_matches req (req, r)"
  by (auto simp: cached_item_matches_def list_all_iff)

lemma cache_query_put_entry:
  "''*'' \<notin> set (vary r) \<Longrightarrow> cache_query (put_entry req r c) req = Some r"
proof -
  assume star: "''*'' \<notin> set (vary r)"
  have "find (cached_item_matches req) (filter (\<lambda>item. \<not> cached_item_matches req item) c) = None"
    by (simp add: find_None_iff)
  then show ?thesis
    using item_matches_itself [OF star, of req]
    by (simp add: cache_query_def put_entry_def find_append_miss)
qed

lemma caches_match_after_put:
  assumes "req_method req = ''GET''" "''*'' \<notin> set (vary r)"
  shows "(\<And>nc. nc \<in> set store \<Longrightarrow> cache_query (snd nc) req = None)
         \<Longrightarrow> name \<in> set (map fst store)
         \<Longrightarrow> caches_match
               (map (\<lambda>(n, c). if n = name then (n, put_entry req r c) else (n, c)) store) req
             = Some r"
proof (induction store)
  case Nil
  then show ?case by simp
next
  case (Cons nc store)
  obtain n c where nc: "nc = (n, c)" by (cases nc)
  show ?case
  proof (cases "n = name")
    case True
    then show ?thesis
      using assms nc by (simp add: cache_query_put_entry)
  next
    case False
    have "cache_query c req = None"
      using Cons.prems(1) [of nc] nc by simp
    moreover have "name \<in> set (map fst store)"
      using Cons.prems(2) False nc by auto
    ultimately show ?thesis
      using Cons.IH Cons.prems(1) assms(1) False nc by simp
  qed
qed

lemma caches_open_miss:
  "nc \<in> set (caches_open store name) \<Longrightarrow> nc \<in> set store \<or> snd nc = []"
  by (auto simp: caches_open_def split: if_splits)

lemma caches_open_named: "name \<in> set (map fst (caches_open store name))"
  by (simp add: caches_open_def)

lemma caches_match_after_write:
  assumes miss: "caches_match store req = None"
  shows "caches_match (cache_put (caches_open store CACHE_NAME) CACHE_NAME req r) req =
           (if put_accepts req r then Some r else None)"
proof (cases "req_method req = ''GET''")
  case False
  then have "caches_match s req = None" for s
    by (cases s) auto
  moreover have "\<not> put_accepts req r"
    using False by (simp add: put_accepts_def)
  ultimately show ?thesis by simp
next
  case True
  have all: "cache_query (snd nc) req = None" if "nc \<in> set (caches_open store CACHE_NAME)" for nc
    using caches_open_miss [OF that] caches_match_miss [OF True miss, of nc]
    by (auto simp: cache_query_def)
  show ?thesis
  proof (cases "put_accepts req r")
    case False
    then show ?thesis
      using caches_match_all_miss [of "caches_open store CACHE_NAME" req] all
      by (simp add: cache_put_def)
  next
    case accepted: True
    then have star: "''*'' \<notin> set (vary r)"
      by (simp add: put_accepts_def)
    show ?thesis
      using caches_match_after_put [OF True star, of "caches_open store CACHE_NAME" CACHE_NAME]
        all caches_open_named [of CACHE_NAME store] accepted
      by (simp add: cache_put_def)
  qed
qed

text \<open>
  Matching at work: the fragment of the URL is not compared, the query string is, and
  a response stored with \<open>Vary: Accept\<close> answers only a request with the same
  \<open>Accept\<close> as the request it was stored for. A request that is not a \<open>GET\<close> is
  never answered from a cache.
\<close>

lemma caches_match_examples:
  "caches_match [(CACHE_NAME, [(get_request ''https://phillycalendar.org/events'', ok_response)])]
     (get_request ''https://phillycalendar.org/events#top'') = Some ok_response \<and>
   caches_match [(CACHE_NAME, [(get_request ''https://phillycalendar.org/events'', ok_response)])]
     (get_request ''https://phillycalendar.org/events?month=3'') = None \<and>
   caches_match [(CACHE_NAME, [(get_request ''https://phillycalendar.org/events'', ok_response)])]
     ((get_request ''https://phillycalendar.org/events'')\<lparr>req_method := ''POST''\<rparr>) = None \<and>
   caches_match
     [(CACHE_NAME, [((get_request ''https://phillycalendar.org/events'')
                       \<lparr>req_headers := [(''Accept'', ''application/json'')]\<rparr>,
                     ok_response\<lparr>vary := [''accept'']\<rparr>)])]
     ((get_request ''https://phillycalendar.org/events'')
        \<lparr>req_headers := [(''accept'', ''application/json'')]\<rparr>)
     = Some (ok_response\<lparr>vary := [''accept'']\<rparr>) \<and>
   caches_match
     [(CACHE_NAME, [((get_request ''https://phillycalendar.org/events'')
                       \<lparr>req_headers := [(''Accept'', ''application/json'')]\<rparr>,
                     ok_response\<lparr>vary := [''accept'']\<rparr>)])]
     ((get_request ''https://phillycalendar.org/events'')
        \<lparr>req_headers := [(''Accept'', ''text/html'')]\<rparr>) = None"
  by code_simp

text \<open>
  C9, as the claim states it, fails: the response to \<open>POST /events\<close> (the request the
  page sends to add an event) comes from the network and its URL contains \<open>/events\<close>,
  yet the cache of the current version is empty afterwards.
\<close>

theorem sw_fetch_post_counterexample:
  "events_bearing \<lparr>req_url = ''https://phillycalendar.org/events'', req_method = ''POST'',
                    req_headers = []\<rparr> \<and>
   sw_fetch (\<lambda>req. Some ok_response) []
            \<lparr>req_url = ''https://phillycalendar.org/events'', req_method = ''POST'',
             req_headers = []\<rparr>
     = (Some ok_response, [(CACHE_NAME, [])])"
  by code_simp

text \<open>
  C9, amended. A cached response is served if \<open>caches.match\<close> finds one for the
  request (a \<open>GET\<close>, its URL compared without the fragment, the \<open>Vary\<close> fields of
  the cached response honoured), and the caches are left as they are. Otherwise the
  response is the network's (none when the network fails, and nothing is written
  then). The worker hands the network's response to \<open>cache.put\<close> on the cache of the
  current version exactly when the URL of the request contains \<open>/events\<close>; the
  response is written, so that the same request is served from the cache afterwards,
  when moreover the Cache interface accepts the pair (an http(s) \<open>GET\<close>, a status other
  than 206, no \<open>*\<close> in \<open>Vary\<close>). In every other case no response is written: the
  caches are unchanged when the URL does not contain \<open>/events\<close>, and at most the
  empty cache of the current version is created when \<open>cache.put\<close> rejects.
\<close>

theorem sw_fetch_cache_first:
  "(caches_match store req = Some cached \<longrightarrow>
      sw_fetch network store req = (Some cached, store)) \<and>
   (caches_match store req = None \<and> network req = None \<longrightarrow>
      sw_fetch network store req = (None, store)) \<and>
   (caches_match store req = None \<and> network req = Some r \<longrightarrow>
      fst (sw_fetch network store req) = Some r \<and>
      snd (sw_fetch network store req) =
        (if events_bearing req
         then (if put_accepts req r
               then map (\<lambda>(n, c). if n = CACHE_NAME then (n, put_entry req r c) else (n, c))
                        (caches_open store CACHE_NAME)
               else caches_open store CACHE_NAME)
         else store) \<and>
      caches_match (snd (sw_fetch network store req)) req =
        (if events_bearing req \<and> put_accepts req r then Some r else None))"
proof -
  have third:
    "fst (sw_fetch network store req) = Some r \<and>
     snd (sw_fetch network store req) =
        (if events_bearing req
         then (if put_accepts req r
               then map (\<lambda>(n, c). if n = CACHE_NAME then (n, put_entry req r c) else (n, c))
                        (caches_open store CACHE_NAME)
               else caches_open store CACHE_NAME)
         else store) \<and>
     caches_match (snd (sw_fetch network store req)) req =
        (if events_bearing req \<and> put_accepts req r then Some r else None)"
    if miss: "caches_match store req = None" and net: "network req = Some r"
  proof (cases "events_bearing req")
    case True
    have s: "sw_fetch network store req =
               (Some r, cache_put (caches_open store CACHE_NAME) CACHE_NAME req r)"
      using miss net True by (simp add: sw_fetch_def)
    show ?thesis
      unfolding s using True caches_match_after_write [OF miss, of r]
      by (simp add: cache_put_def)
  next
    case False
    then show ?thesis
      using miss net by (simp add: sw_fetch_def)
  qed
  have first: "sw_fetch network store req = (Some cached, store)"
    if "caches_match store req = Some cached"
    using that by (simp add: sw_fetch_def)
  have second: "sw_fetch network store req = (None, store)"
    if "caches_match store req = None" "network req = None"
    using that by (simp add: sw_fetch_def)
  show ?thesis
    using first second third by blast
qed

theorem sw_fetch_cache_first_witness:
  "caches_match [] (get_request ''https://phillycalendar.org/events/upcoming'') = None \<and>
   sw_fetch (\<lambda>req. Some ok_response) [] (get_request ''https://phillycalendar.org/events/upcoming'')
     = (Some ok_response,
        [(CACHE_NAME, [(get_request ''https://phillycalendar.org/events/upcoming'', ok_response)])]) \<and>
   sw_fetch (\<lambda>req. None)
     [(CACHE_NAME, [(get_request ''https://phillycalendar.org/events/upcoming'', ok_response)])]
     (get_request ''https://phillycalendar.org/events/upcoming#top'')
     = (Some ok_response,
        [(CACHE_NAME, [(get_request ''https://phillycalendar.org/events/upcoming'', ok_response)])]) \<and>
   sw_fetch (\<lambda>req. None) [] (get_request ''https://phillycalendar.org/stats'') = (None, []) \<and>
   sw_fetch (\<lambda>req. Some ok_response) [] (get_request ''https://phillycalendar.org/stats'')
     = (Some ok_response, [])"
proof -
  let ?up = "get_request ''https://phillycalendar.org/events/upcoming''"
  let ?top = "get_request ''https://phillycalendar.org/events/upcoming#top''"
  let ?stats = "get_request ''https://phillycalendar.org/stats''"
  let ?full = "[(CACHE_NAME, [(?up, ok_response)])]"
  have miss: "caches_match [] ?up = None" "caches_match [] ?stats = None"
    by simp_all
  have ev: "events_bearing ?up" "\<not> events_bearing ?stats" by code_simp+
  have acc: "put_accepts ?up ok_response" by code_simp
  have hit: "caches_match ?full ?top = Some ok_response" by code_simp
  have opened: "map (\<lambda>(n, c). if n = CACHE_NAME then (n, put_entry ?up ok_response c) else (n, c))
                    (caches_open [] CACHE_NAME) = ?full"
    by code_simp
  have w1f: "fst (sw_fetch (\<lambda>req. Some ok_response) [] ?up) = Some ok_response"
    using sw_fetch_cache_first [of "[]" ?up ok_response "\<lambda>req. Some ok_response" ok_response] miss(1)
    by blast
  have w1s: "snd (sw_fetch (\<lambda>req. Some ok_response) [] ?up) =
        (if events_bearing ?up
         then (if put_accepts ?up ok_response
               then map (\<lambda>(n, c). if n = CACHE_NAME then (n, put_entry ?up ok_response c) else (n, c))
                        (caches_open [] CACHE_NAME)
               else caches_open [] CACHE_NAME)
         else [])"
    using sw_fetch_cache_first [of "[]" ?up ok_response "\<lambda>req. Some ok_response" ok_response] miss(1)
    by blast
  have w1: "sw_fetch (\<lambda>req. Some ok_response) [] ?up = (Some ok_response, ?full)"
    using w1f w1s ev(1) acc opened by (simp add: prod_eq_iff)
  have w2: "sw_fetch (\<lambda>req. None) ?full ?top = (Some ok_response, ?full)"
    using sw_fetch_cache_first [of ?full ?top ok_response "\<lambda>req. None" ok_response] hit
    by blast
  have w3: "sw_fetch (\<lambda>req. None) [] ?stats = (None, [])"
    using sw_fetch_cache_first [of "[]" ?stats ok_response "\<lambda>req. None" ok_response] miss(2)
    by blast
  have w4f: "fst (sw_fetch (\<lambda>req. Some ok_response) [] ?stats) = Some ok_response"
    using sw_fetch_cache_first [of "[]" ?stats ok_response "\<lambda>req. Some ok_response" ok_response] miss(2)
    by blast
  have w4s: "snd (sw_fetch (\<lambda>req. Some ok_response) [] ?stats) =
        (if events_bearing ?stats
         then (if put_accepts ?stats ok_response
               then map (\<lambda>(n, c). if n = CACHE_NAME then (n, put_entry ?stats ok_response c) else (n, c))
                        (caches_open [] CACHE_NAME)
               else caches_open [] CACHE_NAME)
         else [])"
    using sw_fetch_cache_first [of "[]" ?stats ok_response "\<lambda>req. Some ok_response" ok_response] miss(2)
    by blast
  have w4: "sw_fetch (\<lambda>req. Some ok_response) [] ?stats = (Some ok_response, [])"
    using w4f w4s ev(2) by (simp add: prod_eq_iff)
  show ?thesis
    using miss(1) w1 w2 w3 w4 by blast
qed

section \<open>Properties of the filter pipeline\<close>

lemma js_filter_total:
  "(\<And>x. x \<in> set xs \<Longrightarrow> f x = Inr (g x)) \<Longrightarrow> js_filter f xs = Inr (filter g xs)"
  by (induction xs) auto

lemma matchesNeighborhood_value:
  "currentNeighborhood st = ''all'' \<or> keywords_property (currentNeighborhood st) \<noteq> Inherited
   \<Longrightarrow> matchesNeighborhood st e = Inr (in_neighborhood (currentNeighborhood st) e)"
  by (auto simp: matchesNeighborhood_def in_neighborhood_def keywords_property_def
           split: property.splits option.splits if_splits)

lemma matchesSearch_value:
  "query = [] \<or> text_fields_present e \<Longrightarrow> matchesSearch query e = Inr (query_found query e)"
  by (auto simp: matchesSearch_def query_found_def text_fields_present_def)

lemma applyFilters_value:
  assumes "currentNeighborhood st = ''all'' \<or>
           keywords_property (currentNeighborhood st) \<noteq> Inherited"
  shows "applyFilters h st =
           (st\<lparr>filteredEvents := filter (all_predicates h st) (allEvents st)\<rparr>, None)"
proof -
  have "filter_callback h st e = Inr (all_predicates h st e)" for e
    using matchesNeighborhood_value [OF assms, of e]
    by (simp add: filter_callback_def all_predicates_def)
  then have "js_filter (filter_callback h st) (allEvents st) =
               Inr (filter (all_predicates h st) (allEvents st))"
    by (intro js_filter_total) simp
  then show ?thesis by (simp add: applyFilters_def)
qed

lemma handleSearch_value:
  assumes "currentNeighborhood st = ''all'' \<or>
           keywords_property (currentNeighborhood st) \<noteq> Inherited"
    and "text = [] \<or> list_all text_fields_present (allEvents st)"
  shows "handleSearch h text st =
           (st\<lparr>filteredEvents :=
                 filter (\<lambda>e. all_predicates h st e \<and> query_found (toLowerCase text) e)
                        (allEvents st)\<rparr>, None)"
proof -
  have "search_callback h st (toLowerCase text) e =
          Inr (all_predicates h st e \<and> query_found (toLowerCase text) e)"
    if "e \<in> set (allEvents st)" for e
  proof -
    have "toLowerCase text = [] \<or> text_fields_present e"
      using assms(2) that by (auto simp: toLowerCase_def list_all_iff)
    then show ?thesis
      using matchesNeighborhood_value [OF assms(1), of e] matchesSearch_value [of "toLowerCase text" e]
      by (simp add: search_callback_def all_predicates_def)
  qed
  then have "js_filter (search_callback h st (toLowerCase text)) (allEvents st) =
               Inr (filter (\<lambda>e. all_predicates h st e \<and> query_found (toLowerCase text) e)
                           (allEvents st))"
    by (intro js_filter_total) simp
  then show ?thesis by (simp add: handleSearch_def)
qed

text \<open>
  C1 at an event without a location: the list shows Jazz Night and the user types
  \<open>park\<close>. Neither the title nor the description contains the query, the callback of
  \<open>handleSearch\<close> goes on to \<open>event.location.toLowerCase()\<close>, and the \<open>TypeError\<close> leaves
  \<open>filteredEvents\<close> as it was: the event stays in the filtered output although it does
  not satisfy the search predicate. \<open>applyFilters\<close> and the neighborhood predicate of
  \<open>handleSearch\<close> itself read the same field as \<open>event.location || ''\<close>.
\<close>

theorem handleSearch_null_location:
  "handleSearch sample_host ''park''
     (initial_state\<lparr>allEvents := [jazz_night], filteredEvents := [jazz_night]\<rparr>)
   = (initial_state\<lparr>allEvents := [jazz_night], filteredEvents := [jazz_night]\<rparr>, Some TypeError) \<and>
   \<not> query_found (toLowerCase ''park'') jazz_night"
  by code_simp

text \<open>
  The filtered output where no exception arises. \<open>applyFilters\<close> keeps, in the order
  of \<open>allEvents\<close>, exactly the events that satisfy the category, month, source and
  neighborhood predicates, provided the selected neighborhood is not a name that the
  keyword object inherits.
\<close>

theorem applyFilters_conjunction:
  "currentNeighborhood st = ''all'' \<or> keywords_property (currentNeighborhood st) \<noteq> Inherited
   \<Longrightarrow> filteredEvents (fst (applyFilters h st)) = filter (all_predicates h st) (allEvents st) \<and>
       snd (applyFilters h st) = None \<and>
       (e \<in> set (filteredEvents (fst (applyFilters h st))) \<longleftrightarrow>
          e \<in> set (allEvents st) \<and> matchesCategory st e \<and> matchesMonth h st e \<and>
          matchesSource st e \<and> in_neighborhood (currentNeighborhood st) e)"
  using applyFilters_value [of st h] by (auto simp: all_predicates_def)

theorem applyFilters_conjunction_witness:
  "filteredEvents (fst (applyFilters sample_host
       (initial_state\<lparr>allEvents := [jazz_night], currentCategory := ''music''\<rparr>))) = [jazz_night] \<and>
   filteredEvents (fst (applyFilters sample_host
       (initial_state\<lparr>allEvents := [jazz_night], currentCategory := ''running''\<rparr>))) = []"
proof -
  let ?m = "initial_state\<lparr>allEvents := [jazz_night], currentCategory := ''music''\<rparr>"
  let ?r = "initial_state\<lparr>allEvents := [jazz_night], currentCategory := ''running''\<rparr>"
  have nm: "currentNeighborhood ?m = ''all'' \<or> keywords_property (currentNeighborhood ?m) \<noteq> Inherited"
    by (simp add: initial_state_def)
  have nr: "currentNeighborhood ?r = ''all'' \<or> keywords_property (currentNeighborhood ?r) \<noteq> Inherited"
    by (simp add: initial_state_def)
  have pm: "filter (all_predicates sample_host ?m) (allEvents ?m) = [jazz_night]"
    by (simp add: all_predicates_def matchesCategory_def matchesMonth_def matchesSource_def
          in_neighborhood_def initial_state_def jazz_night_def)
  have pr: "filter (all_predicates sample_host ?r) (allEvents ?r) = []"
    by (simp add: all_predicates_def matchesCategory_def matchesMonth_def matchesSource_def
          in_neighborhood_def initial_state_def jazz_night_def)
  show ?thesis
    using applyFilters_conjunction [OF nm, of sample_host jazz_night]
      applyFilters_conjunction [OF nr, of sample_host jazz_night] pm pr
    by simp
qed

text \<open>
  \<open>handleSearch\<close> keeps exactly the events that satisfy those four predicates and whose
  title, description or location contains the lowercased text of the search box,
  provided moreover that the text is empty or every event has a title, a description
  and a location.
\<close>

theorem handleSearch_conjunction:
  "currentNeighborhood st = ''all'' \<or> keywords_property (currentNeighborhood st) \<noteq> Inherited
   \<Longrightarrow> text = [] \<or> list_all text_fields_present (allEvents st)
   \<Longrightarrow> filteredEvents (fst (handleSearch h text st)) =
         filter (\<lambda>e. all_predicates h st e \<and> query_found (toLowerCase text) e) (allEvents st) \<and>
       snd (handleSearch h text st) = None \<and>
       (e \<in> set (filteredEvents (fst (handleSearch h text st))) \<longleftrightarrow>
          e \<in> set (allEvents st) \<and> matchesCategory st e \<and> matchesMonth h st e \<and>
          matchesSource st e \<and> in_neighborhood (currentNeighborhood st) e \<and>
          query_found (toLowerCase text) e)"
  using handleSearch_value [of st "text" h] by (auto simp: all_predicates_def)

theorem handleSearch_conjunction_witness:
  "filteredEvents (fst (handleSearch sample_host ''JAZZ''
       (initial_state\<lparr>allEvents := [jazz_night\<lparr>location := Some ''Fishtown''\<rparr>]\<rparr>)))
     = [jazz_night\<lparr>location := Some ''Fishtown''\<rparr>] \<and>
   filteredEvents (fst (handleSearch sample_host ''park''
       (initial_state\<lparr>allEvents := [jazz_night\<lparr>location := Some ''Fishtown''\<rparr>]\<rparr>))) = []"
proof -
  let ?e = "jazz_night\<lparr>location := Some ''Fishtown''\<rparr>"
  let ?st = "initial_state\<lparr>allEvents := [?e]\<rparr>"
  have nb: "currentNeighborhood ?st = ''all'' \<or> keywords_property (currentNeighborhood ?st) \<noteq> Inherited"
    by (simp add: initial_state_def)
  have tf: "''JAZZ'' = [] \<or> list_all text_fields_present (allEvents ?st)"
    by (simp add: text_fields_present_def jazz_night_def)
  have tf2: "''park'' = [] \<or> list_all text_fields_present (allEvents ?st)"
    by (simp add: text_fields_present_def jazz_night_def)
  have ap: "all_predicates sample_host ?st ?e"
    by (simp add: all_predicates_def matchesCategory_def matchesMonth_def matchesSource_def
          in_neighborhood_def initial_state_def)
  have q1: "query_found (toLowerCase ''JAZZ'') ?e" by code_simp
  have q2: "\<not> query_found (toLowerCase ''park'') ?e" by code_simp
  show ?thesis
    using handleSearch_conjunction [OF nb tf, of sample_host ?e]
      handleSearch_conjunction [OF nb tf2, of sample_host ?e] ap q1 q2
    by simp
qed

text \<open>
  C6 at a name the keyword table inherits: \<open>constructor\<close> is not \<open>all\<close> and has no
  entry in the keyword table, so the filtered output should become empty. But
  \<open>NEIGHBORHOOD_KEYWORDS[name] || []\<close> finds the property of that name which every
  object inherits, a function without \<open>some\<close>; the callback throws at the first event
  and the filtered output stays what it was, Jazz Night still in it.
\<close>

theorem handleNeighborhoodFilter_inherited_name:
  "''constructor'' \<noteq> ''all'' \<and>
   map_of NEIGHBORHOOD_KEYWORDS ''constructor'' = None \<and>
   handleNeighborhoodFilter sample_host ''constructor''
     (initial_state\<lparr>allEvents := [jazz_night], filteredEvents := [jazz_night]\<rparr>)
   = (initial_state\<lparr>allEvents := [jazz_night], filteredEvents := [jazz_night],
                    currentNeighborhood := ''constructor''\<rparr>, Some TypeError)"
  by code_simp

text \<open>
  The neighborhood predicate where no exception arises. For a selected neighborhood
  that is not \<open>all\<close>, has no entry in the keyword table and is not a name the table
  object inherits from \<open>Object.prototype\<close>, the predicate holds of no event and
  \<open>applyFilters\<close> leaves the filtered output empty, for every event list. For a
  neighborhood with an entry, the predicate holds of an event exactly when its
  lowercased location (the empty string when it has none) contains one of the
  neighborhood's keywords, and \<open>applyFilters\<close> keeps the events that satisfy it
  together with the category, month and source predicates.
\<close>

theorem neighborhood_predicate:
  "(currentNeighborhood st \<noteq> ''all'' \<and>
    map_of NEIGHBORHOOD_KEYWORDS (currentNeighborhood st) = None \<and>
    currentNeighborhood st \<notin> set object_prototype_names \<longrightarrow>
      matchesNeighborhood st e = Inr False \<and>
      applyFilters h st = (st\<lparr>filteredEvents := []\<rparr>, None)) \<and>
   (currentNeighborhood st \<noteq> ''all'' \<and>
    map_of NEIGHBORHOOD_KEYWORDS (currentNeighborhood st) = Some kws \<longrightarrow>
      matchesNeighborhood st e =
        Inr (\<exists>kw \<in> set kws. js_includes (toLowerCase (or_empty (location e))) kw) \<and>
      applyFilters h st =
        (st\<lparr>filteredEvents :=
              filter (\<lambda>e. matchesCategory st e \<and> matchesMonth h st e \<and> matchesSource st e \<and>
                          (\<exists>kw \<in> set kws. js_includes (toLowerCase (or_empty (location e))) kw))
                     (allEvents st)\<rparr>, None))"
proof -
  have unknown:
    "matchesNeighborhood st e = Inr False \<and> applyFilters h st = (st\<lparr>filteredEvents := []\<rparr>, None)"
    if a: "currentNeighborhood st \<noteq> ''all''"
      and b: "map_of NEIGHBORHOOD_KEYWORDS (currentNeighborhood st) = None"
      and c: "currentNeighborhood st \<notin> set object_prototype_names"
  proof -
    have kp: "keywords_property (currentNeighborhood st) = Undefined"
      using b c by (simp add: keywords_property_def)
    have none: "all_predicates h st x = False" for x
      using a b by (simp add: all_predicates_def in_neighborhood_def)
    have "applyFilters h st = (st\<lparr>filteredEvents := filter (all_predicates h st) (allEvents st)\<rparr>, None)"
      using applyFilters_value [of st h] kp by simp
    then have "applyFilters h st = (st\<lparr>filteredEvents := []\<rparr>, None)"
      using none by simp
    then show ?thesis
      using a kp by (simp add: matchesNeighborhood_def)
  qed
  have known:
    "matchesNeighborhood st e =
       Inr (\<exists>kw \<in> set kws. js_includes (toLowerCase (or_empty (location e))) kw) \<and>
     applyFilters h st =
       (st\<lparr>filteredEvents :=
             filter (\<lambda>e. matchesCategory st e \<and> matchesMonth h st e \<and> matchesSource st e \<and>
                         (\<exists>kw \<in> set kws. js_includes (toLowerCase (or_empty (location e))) kw))
                    (allEvents st)\<rparr>, None)"
    if a: "currentNeighborhood st \<noteq> ''all''"
      and b: "map_of NEIGHBORHOOD_KEYWORDS (currentNeighborhood st) = Some kws"
  proof -
    have kp: "keywords_property (currentNeighborhood st) = Keywords kws"
      using b by (simp add: keywords_property_def)
    have eq: "all_predicates h st =
                (\<lambda>x. matchesCategory st x \<and> matchesMonth h st x \<and> matchesSource st x \<and>
                   (\<exists>kw \<in> set kws. js_includes (toLowerCase (or_empty (location x))) kw))"
      using a b by (intro ext) (simp add: all_predicates_def in_neighborhood_def list_ex_iff)
    have "applyFilters h st = (st\<lparr>filteredEvents := filter (all_predicates h st) (allEvents st)\<rparr>, None)"
      using applyFilters_value [of st h] kp by simp
    then have "applyFilters h st =
       (st\<lparr>filteredEvents :=
             filter (\<lambda>e. matchesCategory st e \<and> matchesMonth h st e \<and> matchesSource st e \<and>
                         (\<exists>kw \<in> set kws. js_includes (toLowerCase (or_empty (location e))) kw))
                    (allEvents st)\<rparr>, None)"
      unfolding eq .
    then show ?thesis
      using a kp by (simp add: matchesNeighborhood_def list_ex_iff)
  qed
  show ?thesis
    using unknown known by blast
qed

theorem neighborhood_predicate_witness:
  "applyFilters sample_host
     (initial_state\<lparr>allEvents := [jazz_night], filteredEvents := [jazz_night],
                    currentNeighborhood := ''Atlantis''\<rparr>)
   = (initial_state\<lparr>allEvents := [jazz_night], filteredEvents := [],
                     currentNeighborhood := ''Atlantis''\<rparr>, None) \<and>
   matchesNeighborhood (initial_state\<lparr>currentNeighborhood := ''Fishtown''\<rparr>)
     (jazz_night\<lparr>location := Some ''Johnny Brenda's, Fishtown''\<rparr>) = Inr True"
proof -
  let ?a = "initial_state\<lparr>allEvents := [jazz_night], filteredEvents := [jazz_night],
                          currentNeighborhood := ''Atlantis''\<rparr>"
  let ?f = "initial_state\<lparr>currentNeighborhood := ''Fishtown''\<rparr>"
  let ?e = "jazz_night\<lparr>location := Some ''Johnny Brenda's, Fishtown''\<rparr>"
  let ?kws = "[''fishtown'', ''frankford ave'', ''johnny brenda'']"
  have a1: "currentNeighborhood ?a \<noteq> ''all'' \<and>
            map_of NEIGHBORHOOD_KEYWORDS (currentNeighborhood ?a) = None \<and>
            currentNeighborhood ?a \<notin> set object_prototype_names"
    by (simp add: initial_state_def NEIGHBORHOOD_KEYWORDS_def object_prototype_names_def)
  have f1: "currentNeighborhood ?f \<noteq> ''all'' \<and>
            map_of NEIGHBORHOOD_KEYWORDS (currentNeighborhood ?f) = Some ?kws"
    by (simp add: initial_state_def NEIGHBORHOOD_KEYWORDS_def)
  have f2: "\<exists>kw \<in> set ?kws. js_includes (toLowerCase (or_empty (location ?e))) kw"
  proof
    show "''fishtown'' \<in> set ?kws" by simp
    show "js_includes (toLowerCase (or_empty (location ?e))) ''fishtown''" by code_simp
  qed
  have w1: "applyFilters sample_host ?a = (?a\<lparr>filteredEvents := []\<rparr>, None)"
    using neighborhood_predicate [of ?a jazz_night sample_host "[]"] a1 by blast
  have w2: "matchesNeighborhood ?f ?e =
              Inr (\<exists>kw \<in> set ?kws. js_includes (toLowerCase (or_empty (location ?e))) kw)"
    using neighborhood_predicate [of ?f ?e sample_host ?kws] f1 by blast
  show ?thesis
    using w1 w2 f2 by (simp add: initial_state_def)
qed

section \<open>Properties of the day grouping\<close>

lemma items_of_snoc:
  "items_of h (its @ [item]) k = (if key_of h item = k then items_of h its k @ [item] else items_of h its k)"
  by (simp add: items_of_def)

lemma items_of_empty_iff: "items_of h its k = [] \<longleftrightarrow> k \<notin> key_of h ` set its"
  by (auto simp: items_of_def filter_empty_conv)

lemma grouped_step:
  assumes "grouped h its acc"
  shows "grouped h (its @ [item]) (group_step h acc item)"
proof (cases "items_of h its (key_of h item) = []")
  case True
  then have new: "key_of h item \<notin> set (snd acc)"
    using assms by (simp add: grouped_def items_of_empty_iff)
  have "fst acc (key_of h item) = None"
    using assms True by (simp add: grouped_def)
  then have step: "group_step h acc item =
      ((fst acc)(key_of h item \<mapsto> [item]), snd acc @ [key_of h item])"
    by (simp add: group_step_def Let_def key_of_def)
  show ?thesis
    unfolding step grouped_def
    using assms True new by (auto simp: grouped_def items_of_snoc fun_eq_iff)
next
  case False
  then have old: "key_of h item \<in> set (snd acc)"
    using assms by (simp add: grouped_def items_of_empty_iff)
  have "fst acc (key_of h item) = Some (items_of h its (key_of h item))"
    using assms False by (simp add: grouped_def)
  then have step: "group_step h acc item =
      ((fst acc)(key_of h item \<mapsto> items_of h its (key_of h item) @ [item]), snd acc)"
    by (simp add: group_step_def Let_def key_of_def)
  show ?thesis
    unfolding step grouped_def
    using assms False old by (auto simp: grouped_def items_of_snoc fun_eq_iff)
qed

lemma grouped_foldl:
  "grouped h seen acc \<Longrightarrow> grouped h (seen @ its) (foldl (group_step h) acc its)"
proof (induction its arbitrary: seen acc)
  case Nil
  then show ?case by simp
next
  case (Cons item its)
  from Cons.IH [OF grouped_step [OF Cons.prems, of item]] show ?case by simp
qed

lemma grouped_group_by_day:
  "grouped h (zip events [0..<length events]) (group_by_day h events)"
  unfolding group_by_day_def
  using grouped_foldl [of h "[]" "(Map.empty, [])" "zip events [0..<length events]"]
  by (simp add: grouped_def items_of_def)

lemma day_buckets_eq:
  "\<exists>ks. distinct ks \<and> set ks = key_of h ` set (zip events [0..<length events]) \<and>
     day_buckets h events =
       map (\<lambda>k. (k, items_of h (zip events [0..<length events]) k)) (sort ks)"
proof -
  let ?its = "zip events [0..<length events]"
  obtain byDay dayOrder where g: "group_by_day h events = (byDay, dayOrder)"
    by (cases "group_by_day h events")
  have inv: "grouped h ?its (byDay, dayOrder)"
    using grouped_group_by_day [of h events] g by simp
  have "(case byDay k of None \<Rightarrow> [] | Some items \<Rightarrow> items) = items_of h ?its k" for k
    using inv by (simp add: grouped_def)
  then have "day_buckets h events = map (\<lambda>k. (k, items_of h ?its k)) (sort dayOrder)"
    by (simp add: day_buckets_def g)
  then show ?thesis
    using inv by (auto simp: grouped_def)
qed

lemma mset_by_key:
  "distinct ks \<Longrightarrow>
   mset (concat (map (\<lambda>k. filter (\<lambda>x. f x = k) xs) ks)) = mset (filter (\<lambda>x. f x \<in> set ks) xs)"
proof (induction ks)
  case Nil
  then show ?case by simp
next
  case (Cons k ks)
  have "mset (filter (\<lambda>x. f x = k) xs) + mset (filter (\<lambda>x. f x \<in> set ks) xs) =
        mset (filter (\<lambda>x. f x = k \<or> f x \<in> set ks) xs)"
    using Cons.prems by (induction xs) auto
  with Cons show ?case by simp
qed

lemma key_image:
  "key_of h ` set (zip events [0..<length events]) =
     (\<lambda>e. dayKey (parseLocalDate h (start_date e))) ` set events"
proof -
  have "fst ` set (zip events [0..<length events]) = set events"
    by (metis length_upt map_fst_zip minus_nat.diff_0 set_map)
  then show ?thesis
    by (force simp: key_of_def image_iff)
qed

lemma sorted_items: "sorted_wrt (<) (map snd (items_of h (zip events [0..<length events]) k))"
proof -
  have "sorted_wrt (<) (map snd (zip events [0..<length events]))"
    by (simp add: sorted_wrt_iff_nth_less)
  then show ?thesis
    unfolding items_of_def sorted_wrt_map by (rule sorted_wrt_filter)
qed

text \<open>
  C4. The groups that \<open>renderGroupedByDay\<close> emits are the buckets of the filtered
  events, each with the rows of its items. The bucket keys are strictly ascending (as
  strings); they are the day keys of the events; the bucket of a key holds exactly the
  items (event and index in \<open>filteredEvents\<close>) whose start date has that key, in
  the order of the list; every item is in one bucket, once; no bucket is empty, and
  within a bucket the indices ascend: the order is that of the filter pipeline, not
  that of the start times.
\<close>

theorem renderGroupedByDay_partition:
  "map (\<lambda>g. (group_key g, group_rows g)) (renderGroupedByDay h st) =
     map (\<lambda>b. (fst b, map (\<lambda>item. createEventRow h (fst item) (snd item)) (snd b)))
         (day_buckets h (filteredEvents st)) \<and>
   sorted_wrt (<) (map fst (day_buckets h events)) \<and>
   set (map fst (day_buckets h events)) =
     (\<lambda>e. dayKey (parseLocalDate h (start_date e))) ` set events \<and>
   map snd (day_buckets h events) =
     map (items_of h (zip events [0..<length events])) (map fst (day_buckets h events)) \<and>
   mset (concat (map snd (day_buckets h events))) = mset (zip events [0..<length events]) \<and>
   (\<forall>b \<in> set (day_buckets h events). snd b \<noteq> [] \<and> sorted_wrt (<) (map snd (snd b)))"
proof -
  let ?its = "zip events [0..<length events]"
  obtain ks where ks: "distinct ks" "set ks = key_of h ` set ?its"
    and bs: "day_buckets h events = map (\<lambda>k. (k, items_of h ?its k)) (sort ks)"
    using day_buckets_eq [of h events] by blast
  have keys: "map fst (day_buckets h events) = sort ks"
    by (simp add: bs comp_def)
  have render: "map (\<lambda>g. (group_key g, group_rows g)) (renderGroupedByDay h st) =
     map (\<lambda>b. (fst b, map (\<lambda>item. createEventRow h (fst item) (snd item)) (snd b)))
         (day_buckets h (filteredEvents st))"
    by (simp add: renderGroupedByDay_def comp_def case_prod_beta)
  have ordered: "sorted_wrt (<) (map fst (day_buckets h events))"
    using ks(1) by (simp add: keys strict_sorted_iff)
  have keyset: "set (map fst (day_buckets h events)) =
                  (\<lambda>e. dayKey (parseLocalDate h (start_date e))) ` set events"
    using ks(2) key_image [of h events] by (simp add: keys)
  have contents: "map snd (day_buckets h events) =
                    map (items_of h ?its) (map fst (day_buckets h events))"
    by (simp add: bs comp_def)
  have "mset (concat (map snd (day_buckets h events))) =
          mset (filter (\<lambda>x. key_of h x \<in> set (sort ks)) ?its)"
    using mset_by_key [of "sort ks" "key_of h" ?its] ks(1)
    by (simp add: bs comp_def items_of_def)
  also have "\<dots> = mset ?its"
    using ks(2) by (simp add: filter_id_conv)
  finally have all_once: "mset (concat (map snd (day_buckets h events))) = mset ?its" .
  have each: "\<forall>b \<in> set (day_buckets h events). snd b \<noteq> [] \<and> sorted_wrt (<) (map snd (snd b))"
    using ks(2) by (auto simp: bs sorted_items items_of_empty_iff)
  from render ordered keyset contents all_once each show ?thesis by blast
qed
theorem renderGroupedByDay_partition_witness:
  "day_buckets sample_host [at_ten, at_eight, jazz_night] =
     [(''2026-03-01'', [(jazz_night, 2)]), (''2026-03-02'', [(at_ten, 0), (at_eight, 1)])] \<and>
   sorted_wrt (<) (map fst (day_buckets sample_host [at_ten, at_eight, jazz_night])) \<and>
   sorted_wrt (<) (map snd [(at_ten, 0 :: nat), (at_eight, 1)]) \<and>
   getHours (parseLocalDate sample_host (start_date at_eight)) = Num 8 \<and>
   getHours (parseLocalDate sample_host (start_date at_ten)) = Num 10"
proof -
  have ex: "day_buckets sample_host [at_ten, at_eight, jazz_night] =
     [(''2026-03-01'', [(jazz_night, 2)]), (''2026-03-02'', [(at_ten, 0), (at_eight, 1)])]"
    by code_simp
  have hours: "getHours (parseLocalDate sample_host (start_date at_eight)) = Num 8 \<and>
               getHours (parseLocalDate sample_host (start_date at_ten)) = Num 10"
    by code_simp
  note t = renderGroupedByDay_partition [of sample_host initial_state "[at_ten, at_eight, jazz_night]"]
  from t have keys: "sorted_wrt (<) (map fst (day_buckets sample_host [at_ten, at_eight, jazz_night]))"
    by blast
  from t have "\<forall>b \<in> set (day_buckets sample_host [at_ten, at_eight, jazz_night]).
                 snd b \<noteq> [] \<and> sorted_wrt (<) (map snd (snd b))"
    by blast
  then have "snd (''2026-03-02'', [(at_ten, 0 :: nat), (at_eight, 1)]) \<noteq> [] \<and>
             sorted_wrt (<) (map snd (snd (''2026-03-02'', [(at_ten, 0 :: nat), (at_eight, 1)])))"
    unfolding ex by (rule bspec) simp
  then have inner: "sorted_wrt (<) (map snd [(at_ten, 0 :: nat), (at_eight, 1)])"
    by simp
  from ex keys inner hours show ?thesis by blast
qed

section \<open>Properties of the two wire encodings\<close>

lemma char_code_digit_char: "k < 10 \<Longrightarrow> char_code (digit_char k) = 48 + k"
  by (simp add: char_code_def digit_char_def)

lemma is_digit_digit_char: "k < 10 \<Longrightarrow> is_digit (digit_char k)"
  by (simp add: is_digit_def char_code_digit_char)

lemma digit_classes:
  "is_digit c \<Longrightarrow> \<not> is_alpha c \<and> \<not> is_space c"
  by (auto simp: is_digit_def is_alpha_def is_space_def)

lemma alpha_classes:
  "is_alpha c \<Longrightarrow> \<not> is_digit c \<and> \<not> is_space c"
  by (auto simp: is_digit_def is_alpha_def is_space_def)

lemma punct_classes:
  "\<not> is_digit CHR '' ''" "\<not> is_digit CHR '':''" "\<not> is_digit CHR ''-''" "\<not> is_digit CHR ''T''"
  "\<not> is_digit CHR ''+''" "\<not> is_digit CHR ''Z''" "\<not> is_alpha CHR '',''" "\<not> is_alpha CHR '' ''"
  "is_space CHR '' ''" "\<not> is_space CHR ''G''"
  by (simp_all add: is_digit_def is_alpha_def is_space_def char_code_def)

lemma not_in_digits: "list_all is_digit xs \<Longrightarrow> \<not> is_digit c \<Longrightarrow> c \<notin> set xs"
  by (auto simp: list_all_iff)

lemma takeWhile_miss: "xs \<noteq> [] \<Longrightarrow> \<not> p (hd xs) \<Longrightarrow> takeWhile p (xs @ ys) = []"
  by (cases xs) auto

lemma dropWhile_miss: "xs \<noteq> [] \<Longrightarrow> \<not> p (hd xs) \<Longrightarrow> dropWhile p (xs @ ys) = xs @ ys"
  by (cases xs) auto

lemma run_of_segment:
  "list_all p xs \<Longrightarrow> lo \<le> length xs \<Longrightarrow> length xs \<le> hi \<Longrightarrow> \<not> p c
   \<Longrightarrow> run_of p lo hi (xs @ c # rest) = Some (xs, c # rest)"
  by (simp add: run_of_def list_all_iff takeWhile_append2 dropWhile_append2)

lemma spaces_before:
  "xs \<noteq> [] \<Longrightarrow> \<not> is_space (hd xs) \<Longrightarrow> spaces (CHR '' '' # xs @ rest) = Some (xs @ rest)"
  by (simp add: spaces_def punct_classes takeWhile_miss dropWhile_miss)

lemma hd_digits: "list_all is_digit xs \<Longrightarrow> xs \<noteq> [] \<Longrightarrow> \<not> is_space (hd xs) \<and> \<not> is_alpha (hd xs)"
  by (cases xs) (auto simp: digit_classes)

lemma hd_alphas: "list_all is_alpha xs \<Longrightarrow> xs \<noteq> [] \<Longrightarrow> \<not> is_space (hd xs)"
  by (cases xs) (auto simp: alpha_classes)

lemma match_rfc2822_segments:
  assumes wd: "length wd = 3" "list_all is_alpha wd"
    and g1: "list_all is_digit g1" "1 \<le> length g1" "length g1 \<le> 2"
    and g2: "length g2 = 3" "list_all is_alpha g2"
    and g3: "length g3 = 4" "list_all is_digit g3"
    and g4: "length g4 = 2" "list_all is_digit g4"
    and g5: "length g5 = 2" "list_all is_digit g5"
    and g6: "length g6 = 2" "list_all is_digit g6"
  shows "match_rfc2822
           (wd @ '', '' @ g1 @ '' '' @ g2 @ '' '' @ g3 @ '' '' @ g4 @ '':'' @ g5 @ '':'' @ g6 @ '' GMT'')
         = Some (g1, g2, g3, g4, g5, g6)"
proof -
  have ne: "g1 \<noteq> []" "g2 \<noteq> []" "g3 \<noteq> []" "g4 \<noteq> []"
    using g1 g2 g3 g4 by auto
  have s1: "\<not> is_space (hd g1)" "\<not> is_space (hd g2)" "\<not> is_space (hd g3)" "\<not> is_space (hd g4)"
    using hd_digits [OF g1(1) ne(1)] hd_alphas [OF g2(2) ne(2)] hd_digits [OF g3(2) ne(3)]
      hd_digits [OF g4(2) ne(4)] by simp_all
  have last: "spaces '' GMT'' = Some ''GMT''"
    by (simp add: spaces_def punct_classes)
  show ?thesis
    unfolding match_rfc2822_def
    using wd g1 g2 g3 g4 g5 g6 ne s1 last
    by (simp add: run_of_segment spaces_before punct_classes)
qed

lemma digits_value_snoc:
  "digits_value (xs @ [c]) = 10 * digits_value xs + (char_code c - 48)"
  by (simp add: digits_value_def)

lemma two_digits: "(n :: nat) < 100 \<Longrightarrow> 10 * (n div 10 mod 10) + n mod 10 = n"
  by simp

lemma four_digits:
  assumes "(n :: nat) < 10000"
  shows "10 * (10 * (10 * (n div 1000 mod 10) + n div 100 mod 10) + n div 10 mod 10) + n mod 10 = n"
proof -
  have x: "n div 100 = n div 10 div 10" "n div 1000 = n div 10 div 10 div 10"
    by (simp_all add: div_mult2_eq [symmetric])
  have z: "n div 10 div 10 div 10 < 10"
    using assms by (simp add: div_mult2_eq [symmetric])
  have a: "n = 10 * (n div 10) + n mod 10" by simp
  have b: "n div 10 = 10 * (n div 10 div 10) + n div 10 mod 10" by simp
  have c: "n div 10 div 10 = 10 * (n div 10 div 10 div 10) + n div 10 div 10 mod 10" by simp
  show ?thesis
    unfolding x using z a b c by (simp add: mod_less)
qed

lemma digits_value_two:
  "a < 10 \<Longrightarrow> b < 10 \<Longrightarrow> digits_value [digit_char a, digit_char b] = 10 * a + b"
  by (simp add: digits_value_def char_code_digit_char)

lemma digits_value_four:
  "a < 10 \<Longrightarrow> b < 10 \<Longrightarrow> c < 10 \<Longrightarrow> d < 10 \<Longrightarrow>
   digits_value [digit_char a, digit_char b, digit_char c, digit_char d] =
     10 * (10 * (10 * a + b) + c) + d"
  by (simp add: digits_value_def char_code_digit_char)

lemma digits2_props:
  assumes "n < 100"
  shows "list_all is_digit (digits2 n) \<and> length (digits2 n) = 2 \<and> digits_value (digits2 n) = n"
proof -
  have "digits_value (digits2 n) = 10 * (n div 10 mod 10) + n mod 10"
    unfolding digits2_def by (rule digits_value_two) simp_all
  then have "digits_value (digits2 n) = n"
    using two_digits [OF assms] by (simp only:)
  then show ?thesis
    by (simp add: digits2_def is_digit_digit_char)
qed

lemma digits4_props:
  assumes "n < 10000"
  shows "list_all is_digit (digits4 n) \<and> length (digits4 n) = 4 \<and> digits_value (digits4 n) = n"
proof -
  have "digits_value (digits4 n) =
          10 * (10 * (10 * (n div 1000 mod 10) + n div 100 mod 10) + n div 10 mod 10) + n mod 10"
    unfolding digits4_def by (rule digits_value_four) simp_all
  then have "digits_value (digits4 n) = n"
    using four_digits [OF assms] by (simp only:)
  then show ?thesis
    by (simp add: digits4_def is_digit_digit_char)
qed

lemma show_nat_props:
  "list_all is_digit (show_nat n) \<and> show_nat n \<noteq> [] \<and> digits_value (show_nat n) = n"
proof (induction n rule: show_nat.induct)
  case (1 n)
  show ?case
  proof (cases "n < 10")
    case True
    then show ?thesis
      by (simp add: show_nat.simps [of n] is_digit_digit_char digits_value_def char_code_digit_char)
  next
    case False
    with 1 show ?thesis
      by (simp add: show_nat.simps [of n] is_digit_digit_char digits_value_snoc char_code_digit_char)
  qed
qed

lemma show_nat_length: "n < 100 \<Longrightarrow> length (show_nat n) \<le> 2"
proof (cases "n < 10")
  case True
  then show ?thesis by (simp add: show_nat.simps [of n])
next
  case False
  assume "n < 100"
  then have "n div 10 < 10" by simp
  then have "show_nat (n div 10) = [digit_char (n div 10)]"
    by (simp add: show_nat.simps [of "n div 10"])
  with False show ?thesis by (simp add: show_nat.simps [of n])
qed

lemma js_trim_digits: "list_all is_digit ds \<Longrightarrow> js_trim ds = ds"
proof -
  assume d: "list_all is_digit ds"
  have drop: "dropWhile is_space xs = xs" if "list_all is_digit xs" for xs
    using that by (cases xs) (auto simp: digit_classes)
  have "list_all is_digit (rev ds)" using d by (simp add: list_all_iff)
  then have "dropWhile is_space (rev ds) = rev ds" by (rule drop)
  then show ?thesis
    using drop [OF d] by (simp add: js_trim_def)
qed

lemma non_decimal_digits: "list_all is_digit ds \<Longrightarrow> non_decimal ds = None"
proof (cases ds rule: non_decimal.cases)
  case (1 c0 c1 d ds')
  assume "list_all is_digit ds"
  then have "is_digit c1" using 1 by simp
  then have "c1 \<noteq> CHR ''x''" "c1 \<noteq> CHR ''X''" "c1 \<noteq> CHR ''o''" "c1 \<noteq> CHR ''O''"
            "c1 \<noteq> CHR ''b''" "c1 \<noteq> CHR ''B''"
    by (auto simp: is_digit_def char_code_def)
  then show ?thesis using 1 by simp
qed simp_all

lemma unsigned_decimal_digits:
  assumes "list_all is_digit ds" "ds \<noteq> []"
  shows "unsigned_decimal ds = Finite (int (digits_value ds)) 0"
proof -
  have "is_digit (hd ds)" using assms by (cases ds) auto
  moreover have "\<not> is_digit CHR ''I''" by (simp add: is_digit_def char_code_def)
  ultimately have inf: "ds \<noteq> ''Infinity''" by auto
  have tw: "takeWhile is_digit ds = ds" "dropWhile is_digit ds = []"
    using assms(1) by (simp_all add: list_all_iff)
  show ?thesis
    unfolding unsigned_decimal_def tw using inf assms(2) by simp
qed

lemma js_Number_digits:
  assumes "list_all is_digit ds" "ds \<noteq> []"
  shows "js_Number ds = Finite (int (digits_value ds)) 0"
proof -
  obtain c cs where ds: "ds = c # cs" using assms(2) by (cases ds) auto
  have "is_digit c" using assms(1) ds by simp
  then have sign: "c \<noteq> CHR ''-''" "c \<noteq> CHR ''+''"
    using punct_classes by auto
  have nd: "non_decimal (c # cs) = None"
    using non_decimal_digits [OF assms(1)] ds by simp
  have ud: "unsigned_decimal (c # cs) = Finite (int (digits_value ds)) 0"
    using unsigned_decimal_digits [OF assms] ds by simp
  have "js_trim ds = c # cs"
    using js_trim_digits [OF assms(1)] ds by simp
  then show ?thesis
    using sign nd ud by (simp add: js_Number_def)
qed

lemma date_arg_whole:
  "date_arg (Finite m 0) = Num m"
  "date_arg (minus_one (Finite m 0)) = Num (m - 1)"
  "date_arg (or_zero (Finite m 0)) = Num m"
  by simp_all

lemma leading_digits_all:
  "list_all is_digit xs \<Longrightarrow> xs \<noteq> [] \<Longrightarrow> leading_digits xs = Num (int (digits_value xs))"
proof -
  assume a: "list_all is_digit xs" "xs \<noteq> []"
  then have tw: "takeWhile is_digit xs = xs" by (simp add: list_all_iff)
  show ?thesis
    unfolding leading_digits_def tw using a by (simp add: unsigned_number_def)
qed

lemma parseInt10_digits:
  assumes "list_all is_digit ds" "ds \<noteq> []"
  shows "parseInt10 ds = Num (int (digits_value ds))"
proof -
  obtain c cs where ds: "ds = c # cs" using assms(2) by (cases ds) auto
  have c: "is_digit c" using assms(1) ds by simp
  then have ne: "c \<noteq> CHR ''-''" "c \<noteq> CHR ''+''"
    using punct_classes by auto
  have sp: "\<not> is_space c" using c by (simp add: digit_classes)
  have tw: "takeWhile is_digit ds = ds"
    using assms(1) by (simp add: list_all_iff)
  have ld: "leading_digits (c # cs) = Num (int (digits_value (c # cs)))"
    using leading_digits_all [OF assms] unfolding ds .
  have "dropWhile is_space ds = c # cs"
    using sp ds by simp
  then show ?thesis
    using ne ld ds by (simp add: parseInt10_def)
qed

lemma month_abbr_props:
  "1 \<le> M \<Longrightarrow> M \<le> 12 \<Longrightarrow>
   length (month_abbr M) = 3 \<and> list_all is_alpha (month_abbr M) \<and>
   months (month_abbr M) = Num (int M - 1)"
proof -
  assume "1 \<le> M" "M \<le> 12"
  then have "M \<in> set [1..<13]" by simp
  moreover have "list_all (\<lambda>M. length (month_abbr M) = 3 \<and> list_all is_alpha (month_abbr M) \<and>
                   months (month_abbr M) = Num (int M - 1)) [1..<13]"
    by code_simp
  ultimately show ?thesis
    unfolding list_all_iff by blast
qed

lemma replace_first_absent: "c \<notin> set s \<Longrightarrow> replace_first c r s = s"
  by (induction s) auto

lemma first_segment_absent: "c \<notin> set s \<Longrightarrow> first_segment c s = s"
  by (auto simp: first_segment_def)

lemma split_on_absent: "c \<notin> set xs \<Longrightarrow> split_on c xs = [xs]"
  by (induction xs) auto

lemma split_on_segment: "c \<notin> set xs \<Longrightarrow> split_on c (xs @ c # ys) = xs # split_on c ys"
  by (induction xs) auto

lemma parseLocalDate_iso_segments:
  assumes y: "list_all is_digit y4" "y4 \<noteq> []"
    and m: "list_all is_digit m2" "m2 \<noteq> []"
    and d: "list_all is_digit d2" "d2 \<noteq> []"
    and hh: "list_all is_digit h2" "h2 \<noteq> []"
    and mi: "list_all is_digit mi2" "mi2 \<noteq> []"
    and ss: "list_all is_digit s2" "s2 \<noteq> []"
  shows "parseLocalDate h (Some ((y4 @ ''-'' @ m2 @ ''-'' @ d2) @ ''T'' @ (h2 @ '':'' @ mi2 @ '':'' @ s2)))
         = new_Date (Num (int (digits_value y4))) (Num (int (digits_value m2) - 1))
                    (Num (int (digits_value d2))) (Num (int (digits_value h2)))
                    (Num (int (digits_value mi2))) (Num (int (digits_value s2)))"
proof -
  define date where "date = y4 @ ''-'' @ m2 @ ''-'' @ d2"
  define time where "time = h2 @ '':'' @ mi2 @ '':'' @ s2"
  define s where "s = date @ ''T'' @ time"
  have chars: "set s \<subseteq> {c. is_digit c} \<union> {CHR ''-'', CHR ''T'', CHR '':''}"
    using y m d hh mi ss by (auto simp: s_def date_def time_def list_all_iff)
  have absent: "CHR '' '' \<notin> set s" "CHR ''+'' \<notin> set s" "CHR ''Z'' \<notin> set s"
    using chars punct_classes by auto
  have ne: "s \<noteq> []" "date \<noteq> []" "time \<noteq> []"
    using y hh by (simp_all add: s_def date_def time_def)
  have "hd s = hd y4" using y by (simp add: s_def date_def)
  then have "\<not> is_alpha (hd s)" using hd_digits [OF y] by simp
  then have "takeWhile is_alpha (s @ []) = []"
    using ne(1) by (intro takeWhile_miss) simp_all
  then have nomatch: "match_rfc2822 s = None"
    by (simp add: match_rfc2822_def run_of_def)
  have clean: "replace_first CHR ''Z'' [] (first_segment CHR ''+'' (replace_first CHR '' '' ''T'' s)) = s"
    using absent by (simp add: replace_first_absent first_segment_absent)
  have "CHR ''T'' \<notin> set date" "CHR ''T'' \<notin> set time"
    using y m d hh mi ss punct_classes by (auto simp: date_def time_def list_all_iff)
  then have parts: "split_on CHR ''T'' s = [date, time]"
    by (simp add: s_def split_on_segment split_on_absent)
  have "CHR ''-'' \<notin> set y4" "CHR ''-'' \<notin> set m2" "CHR ''-'' \<notin> set d2"
    using y m d punct_classes by (auto simp: list_all_iff)
  then have ymd: "split_on CHR ''-'' date = [y4, m2, d2]"
    by (simp add: date_def split_on_segment split_on_absent)
  have "CHR '':'' \<notin> set h2" "CHR '':'' \<notin> set mi2" "CHR '':'' \<notin> set s2"
    using hh mi ss punct_classes by (auto simp: list_all_iff)
  then have hms: "split_on CHR '':'' time = [h2, mi2, s2]"
    by (simp add: time_def split_on_segment split_on_absent)
  have "parseLocalDate h (Some s) =
          new_Date (date_arg (js_Number y4)) (date_arg (minus_one (js_Number m2)))
                   (date_arg (js_Number d2)) (date_arg (or_zero (js_Number h2)))
                   (date_arg (or_zero (js_Number mi2))) (date_arg (or_zero (js_Number s2)))"
    using ne nomatch by (simp add: parseLocalDate_def clean parts ymd hms nth_num_def)
  then show ?thesis
    using y m d hh mi ss
    by (simp add: js_Number_digits date_arg_whole s_def date_def time_def)
qed

text \<open>
  C2. For a year below 10000, a month from 1 to 12 and a day, hour, minute and second
  of at most two digits, the RFC text (any three-letter weekday, the day written with
  or without a leading zero) and the ISO text of the same fields are parsed to the same
  \<open>Date\<close>, the one \<open>new Date\<close> builds from the literal fields as local time: the
  \<open>GMT\<close> suffix plays no part and no offset is applied. In particular
  \<open>Wed, 18 Feb 2026 19:30:00 GMT\<close> is local 2026-02-18 19:30:00 (month index 1).
\<close>

theorem parseLocalDate_encodings_agree:
  assumes "Y < 10000" "1 \<le> M" "M \<le> 12" "D < 100" "hh < 100" "mm < 100" "ss < 100"
    and wd: "length wd = 3" "list_all is_alpha wd"
    and dd: "dd = show_nat D \<or> dd = digits2 D"
  shows "parseLocalDate h (Some (rfc2822_text wd dd M Y hh mm ss)) =
           new_Date (Num (int Y)) (Num (int M - 1)) (Num (int D))
                    (Num (int hh)) (Num (int mm)) (Num (int ss)) \<and>
         parseLocalDate h (Some (iso_text Y M D hh mm ss)) =
           new_Date (Num (int Y)) (Num (int M - 1)) (Num (int D))
                    (Num (int hh)) (Num (int mm)) (Num (int ss)) \<and>
         parseLocalDate h (Some ''Wed, 18 Feb 2026 19:30:00 GMT'') =
           parseLocalDate h (Some ''2026-02-18T19:30:00'') \<and>
         map (\<lambda>get. get (parseLocalDate h (Some ''Wed, 18 Feb 2026 19:30:00 GMT'')))
             [getFullYear, getMonth, getDate, getHours, getMinutes, getSeconds] =
           [Num 2026, Num 1, Num 18, Num 19, Num 30, Num 0]"
proof -
  note y4 = digits4_props [OF assms(1)]
  note mo = month_abbr_props [OF assms(2,3)]
  have "M < 100" using assms(3) by simp
  note m2 = digits2_props [OF this]
  note d2 = digits2_props [OF assms(4)]
  note h2 = digits2_props [OF assms(5)]
  note mi2 = digits2_props [OF assms(6)]
  note s2 = digits2_props [OF assms(7)]
  have g1: "list_all is_digit dd" "1 \<le> length dd" "length dd \<le> 2" "dd \<noteq> []"
           "digits_value dd = D"
    using dd show_nat_props [of D] show_nat_length [OF assms(4)] d2
    by (auto simp: Suc_le_eq)
  have ne: "digits4 Y \<noteq> []" "digits2 M \<noteq> []" "digits2 D \<noteq> []" "digits2 hh \<noteq> []"
           "digits2 mm \<noteq> []" "digits2 ss \<noteq> []"
    by (simp_all add: digits4_def digits2_def)
  have "match_rfc2822 (rfc2822_text wd dd M Y hh mm ss) =
          Some (dd, month_abbr M, digits4 Y, digits2 hh, digits2 mm, digits2 ss)"
    unfolding rfc2822_text_def
    using wd g1 mo y4 h2 mi2 s2 by (intro match_rfc2822_segments) simp_all
  moreover have "rfc2822_text wd dd M Y hh mm ss \<noteq> []"
    by (simp add: rfc2822_text_def)
  ultimately have rfc: "parseLocalDate h (Some (rfc2822_text wd dd M Y hh mm ss)) =
           new_Date (Num (int Y)) (Num (int M - 1)) (Num (int D))
                    (Num (int hh)) (Num (int mm)) (Num (int ss))"
    using g1 mo y4 h2 mi2 s2 ne by (simp add: parseLocalDate_def parseInt10_digits)
  have iso: "parseLocalDate h (Some (iso_text Y M D hh mm ss)) =
           new_Date (Num (int Y)) (Num (int M - 1)) (Num (int D))
                    (Num (int hh)) (Num (int mm)) (Num (int ss))"
    unfolding iso_text_def
    using parseLocalDate_iso_segments [of "digits4 Y" "digits2 M" "digits2 D" "digits2 hh"
            "digits2 mm" "digits2 ss" h] y4 m2 d2 h2 mi2 s2 ne
    by simp
  have same: "parseLocalDate h (Some ''Wed, 18 Feb 2026 19:30:00 GMT'') =
              parseLocalDate h (Some ''2026-02-18T19:30:00'')"
    by code_simp
  have fields: "map (\<lambda>get. get (parseLocalDate h (Some ''Wed, 18 Feb 2026 19:30:00 GMT'')))
             [getFullYear, getMonth, getDate, getHours, getMinutes, getSeconds] =
           [Num 2026, Num 1, Num 18, Num 19, Num 30, Num 0]"
    by code_simp
  from rfc iso same fields show ?thesis by blast
qed

theorem parseLocalDate_encodings_agree_witness:
  "rfc2822_text ''Wed'' ''18'' 2 2026 19 30 0 = ''Wed, 18 Feb 2026 19:30:00 GMT'' \<and>
   iso_text 2026 2 18 19 30 0 = ''2026-02-18T19:30:00'' \<and>
   parseLocalDate sample_host (Some (rfc2822_text ''Wed'' ''18'' 2 2026 19 30 0)) =
   parseLocalDate sample_host (Some (iso_text 2026 2 18 19 30 0)) \<and>
   parseLocalDate sample_host (Some (rfc2822_text ''Thu'' ''5'' 3 2026 0 0 0)) =
   parseLocalDate sample_host (Some (iso_text 2026 3 5 0 0 0))"
proof -
  have t1: "rfc2822_text ''Wed'' ''18'' 2 2026 19 30 0 = ''Wed, 18 Feb 2026 19:30:00 GMT''"
    by code_simp
  have t2: "iso_text 2026 2 18 19 30 0 = ''2026-02-18T19:30:00''"
    by code_simp
  have a: "length ''Wed'' = 3" "list_all is_alpha ''Wed''" "''18'' = show_nat 18 \<or> ''18'' = digits2 18"
    by code_simp+
  have b: "length ''Thu'' = 3" "list_all is_alpha ''Thu''" "''5'' = show_nat 5 \<or> ''5'' = digits2 5"
    by code_simp+
  have w1: "parseLocalDate sample_host (Some (rfc2822_text ''Wed'' ''18'' 2 2026 19 30 0)) =
            parseLocalDate sample_host (Some (iso_text 2026 2 18 19 30 0))"
    using parseLocalDate_encodings_agree [of 2026 2 18 19 30 0 "''Wed''" "''18''" sample_host] a
    by simp
  have w2: "parseLocalDate sample_host (Some (rfc2822_text ''Thu'' ''5'' 3 2026 0 0 0)) =
            parseLocalDate sample_host (Some (iso_text 2026 3 5 0 0 0))"
    using parseLocalDate_encodings_agree [of 2026 3 5 0 0 0 "''Thu''" "''5''" sample_host] b
    by simp
  from t1 t2 w1 w2 show ?thesis by blast
qed

end
